theory Spec2Isabelle
  imports Complex_Main
begin

section \<open>Python values and exceptions\<close>

text \<open>
  The repository is Python. Every exception the modelled code can meet is a subclass of
  \<^verbatim>\<open>Exception\<close>; a function that may raise returns \<open>pyerr + 'a\<close> with \<open>Inl\<close> the
  exception. \<open>ClientError\<close> and \<open>TimeoutError\<close> stand for the failures of the HTTP
  library (connection refused, DNS, timeout).
\<close>

datatype pyerr =
  TypeError | AttributeError | KeyError | ValueError | IndexError
  | ZeroDivisionError | JSONDecodeError | ClientError | TimeoutError

text \<open>
  The values that \<^verbatim>\<open>json.loads\<close> produces and that the code passes around: \<^verbatim>\<open>None\<close>,
  booleans, integers, floats, strings, lists and dictionaries with string keys. A
  dictionary is an association list in insertion order; a Python float is idealised as
  a real number.
\<close>

datatype json =
  JNull | JBool bool | JInt int | JFloat real | JStr string
  | JList "json list" | JObj "(string \<times> json) list"

text \<open>Truth value of a Python object, as \<^verbatim>\<open>if data:\<close> tests it.\<close>

fun truthy :: "json \<Rightarrow> bool" where
  "truthy JNull = False"
| "truthy (JBool b) = b"
| "truthy (JInt n) = (n \<noteq> 0)"
| "truthy (JFloat r) = (r \<noteq> 0)"
| "truthy (JStr s) = (s \<noteq> [])"
| "truthy (JList xs) = (xs \<noteq> [])"
| "truthy (JObj kvs) = (kvs \<noteq> [])"

definition ebind :: "pyerr + 'a \<Rightarrow> ('a \<Rightarrow> pyerr + 'b) \<Rightarrow> pyerr + 'b" where
  "ebind m f = (case m of Inl e \<Rightarrow> Inl e | Inr x \<Rightarrow> f x)"

text \<open>\<^verbatim>\<open>needle in haystack\<close> on two strings: substring test.\<close>

fun str_contains :: "string \<Rightarrow> string \<Rightarrow> bool" where
  "str_contains p [] = (p = [])"
| "str_contains p (c # cs) = (take (length p) (c # cs) = p \<or> str_contains p cs)"

text \<open>
  \<^verbatim>\<open>key in data\<close> for a string key: key membership on a dictionary, element membership
  on a list, substring on a string, and \<^verbatim>\<open>TypeError\<close> (argument is not iterable) on
  \<^verbatim>\<open>None\<close>, booleans and numbers.
\<close>

fun py_in :: "string \<Rightarrow> json \<Rightarrow> pyerr + bool" where
  "py_in k (JObj kvs) = Inr (map_of kvs k \<noteq> None)"
| "py_in k (JList xs) = Inr (JStr k \<in> set xs)"
| "py_in k (JStr s) = Inr (str_contains k s)"
| "py_in k JNull = Inl TypeError"
| "py_in k (JBool b) = Inl TypeError"
| "py_in k (JInt n) = Inl TypeError"
| "py_in k (JFloat r) = Inl TypeError"

text \<open>
  \<^verbatim>\<open>data[key]\<close> for a string key: \<^verbatim>\<open>KeyError\<close> on a dictionary without the key,
  \<^verbatim>\<open>TypeError\<close> on everything else (list and string indices must be integers, the other
  values are not subscriptable).
\<close>

fun py_getitem :: "json \<Rightarrow> string \<Rightarrow> pyerr + json" where
  "py_getitem (JObj kvs) k = (case map_of kvs k of None \<Rightarrow> Inl KeyError | Some v \<Rightarrow> Inr v)"
| "py_getitem (JList xs) k = Inl TypeError"
| "py_getitem (JStr s) k = Inl TypeError"
| "py_getitem JNull k = Inl TypeError"
| "py_getitem (JBool b) k = Inl TypeError"
| "py_getitem (JInt n) k = Inl TypeError"
| "py_getitem (JFloat r) k = Inl TypeError"

text \<open>\<^verbatim>\<open>d.get(key, default)\<close> on the items of a dictionary.\<close>

definition dict_get :: "(string \<times> json) list \<Rightarrow> string \<Rightarrow> json \<Rightarrow> json" where
  "dict_get kvs k dflt = (case map_of kvs k of None \<Rightarrow> dflt | Some v \<Rightarrow> v)"

text \<open>
  \<^verbatim>\<open>data.get(key, default)\<close> on any value: only a dictionary has the method, every other
  value raises \<^verbatim>\<open>AttributeError\<close>.
\<close>

fun py_get :: "json \<Rightarrow> string \<Rightarrow> json \<Rightarrow> pyerr + json" where
  "py_get (JObj kvs) k dflt = Inr (dict_get kvs k dflt)"
| "py_get (JList xs) k dflt = Inl AttributeError"
| "py_get (JStr s) k dflt = Inl AttributeError"
| "py_get JNull k dflt = Inl AttributeError"
| "py_get (JBool b) k dflt = Inl AttributeError"
| "py_get (JInt n) k dflt = Inl AttributeError"
| "py_get (JFloat r) k dflt = Inl AttributeError"

text \<open>
  Numbers: the numeric value of an \<^verbatim>\<open>int\<close>, \<^verbatim>\<open>float\<close> or \<^verbatim>\<open>bool\<close>; \<^verbatim>\<open>a / b\<close> is true
  division, which raises \<^verbatim>\<open>ZeroDivisionError\<close> on a zero divisor and \<^verbatim>\<open>TypeError\<close> on an
  operand that is not a number; \<^verbatim>\<open>a - b\<close> likewise raises \<^verbatim>\<open>TypeError\<close>.
\<close>

fun num_of :: "json \<Rightarrow> real option" where
  "num_of (JInt n) = Some (real_of_int n)"
| "num_of (JFloat r) = Some r"
| "num_of (JBool b) = Some (if b then 1 else 0)"
| "num_of JNull = None"
| "num_of (JStr s) = None"
| "num_of (JList xs) = None"
| "num_of (JObj kvs) = None"

definition py_truediv :: "real \<Rightarrow> real \<Rightarrow> pyerr + real" where
  "py_truediv a b = (if b = 0 then Inl ZeroDivisionError else Inr (a / b))"

definition py_div :: "json \<Rightarrow> json \<Rightarrow> pyerr + real" where
  "py_div a b =
     (case num_of a of None \<Rightarrow> Inl TypeError
      | Some x \<Rightarrow> (case num_of b of None \<Rightarrow> Inl TypeError | Some y \<Rightarrow> py_truediv x y))"

definition py_sub :: "real \<Rightarrow> json \<Rightarrow> pyerr + real" where
  "py_sub a b = (case num_of b of None \<Rightarrow> Inl TypeError | Some y \<Rightarrow> Inr (a - y))"

text \<open>\<^verbatim>\<open>v == 0\<close>: true exactly for a number of value zero.\<close>

definition py_eq_zero :: "json \<Rightarrow> bool" where
  "py_eq_zero v = (num_of v = Some 0)"


section \<open>The stat estimator\<close>

text \<open>
  The repository holds two implementations of the estimator:
  \<^verbatim>\<open>backup_utils/stats_estimator.py\<close> (names prefixed \<open>backup_\<close> here) and
  \<^verbatim>\<open>bot_package/src/utils/stats_estimator.py\<close>. The command layer calls both with
  integers it has parsed from the message.
\<close>

subsection \<open>\<^verbatim>\<open>estimate_primary_stat\<close>\<close>




subsection \<open>\<^verbatim>\<open>add_spy_data\<close>\<close>

text \<open>
  The spy file \<^verbatim>\<open>data/spies.json\<close>: absent, present but not decodable as JSON, or holding
  a dictionary from player identifiers to spy records. \<^verbatim>\<open>str(player_id)\<close> is the key; the
  command layer passes the identifier as a string.
\<close>

datatype 'r spy_file = FileMissing | FileCorrupt | FileJson "string \<rightharpoonup> 'r"

text \<open>
  The record \<^verbatim>\<open>backup_utils\<close> writes, with keys \<^verbatim>\<open>str\<close>, \<^verbatim>\<open>spd\<close>, \<^verbatim>\<open>dex\<close>, \<^verbatim>\<open>def\<close>,
  \<^verbatim>\<open>total\<close>, \<^verbatim>\<open>timestamp\<close> (an ISO date string).
\<close>

record backup_spy =
  b_str :: int
  b_spd :: int
  b_dex :: int
  b_def :: int
  b_total :: int
  b_timestamp :: string

definition backup_ensure_spy_file_exists :: "'r spy_file \<Rightarrow> 'r spy_file" where
  "backup_ensure_spy_file_exists f = (case f of FileMissing \<Rightarrow> FileJson Map.empty | _ \<Rightarrow> f)"

definition backup_load_spy_data :: "'r spy_file \<Rightarrow> (string \<rightharpoonup> 'r) \<times> 'r spy_file" where
  "backup_load_spy_data f =
     (let f1 = backup_ensure_spy_file_exists f
      in (case f1 of FileJson m \<Rightarrow> (m, f1) | _ \<Rightarrow> (Map.empty, f1)))"

definition backup_save_spy_data :: "'r spy_file \<Rightarrow> (string \<rightharpoonup> 'r) \<Rightarrow> 'r spy_file" where
  "backup_save_spy_data f spy_data = (let f1 = backup_ensure_spy_file_exists f in FileJson spy_data)"

text \<open>\<open>now_iso\<close> is \<^verbatim>\<open>datetime.now().isoformat()\<close>; \<^verbatim>\<open>int(x)\<close> of an integer is the integer.\<close>

definition backup_add_spy_data ::
  "backup_spy spy_file \<Rightarrow> string \<Rightarrow> string \<Rightarrow> int \<Rightarrow> int \<Rightarrow> int \<Rightarrow> int
     \<Rightarrow> (pyerr + backup_spy) \<times> backup_spy spy_file" where
  "backup_add_spy_data f now_iso player_id strength speed dexterity defense =
     (let (spy_data, f1) = backup_load_spy_data f;
          spy_data' = spy_data(player_id \<mapsto>
            \<lparr>b_str = strength, b_spd = speed, b_dex = dexterity, b_def = defense,
             b_total = strength + speed + dexterity + defense, b_timestamp = now_iso\<rparr>);
          f2 = backup_save_spy_data f1 spy_data'
      in (case spy_data' player_id of None \<Rightarrow> Inl KeyError | Some r \<Rightarrow> Inr r, f2))"

text \<open>
  The record \<^verbatim>\<open>bot_package\<close> writes, with keys \<^verbatim>\<open>strength\<close>, \<^verbatim>\<open>speed\<close>, \<^verbatim>\<open>dexterity\<close>,
  \<^verbatim>\<open>defense\<close>, \<^verbatim>\<open>total\<close>, \<^verbatim>\<open>timestamp\<close> (\<^verbatim>\<open>time.time()\<close>) and \<^verbatim>\<open>date\<close>.
\<close>

record spy =
  s_strength :: int
  s_speed :: int
  s_dexterity :: int
  s_defense :: int
  s_total :: int
  s_timestamp :: real
  s_date :: string

definition load_spy_data :: "'r spy_file \<Rightarrow> (string \<rightharpoonup> 'r) \<times> 'r spy_file" where
  "load_spy_data f =
     (case f of
        FileMissing \<Rightarrow> (Map.empty, FileJson Map.empty)
      | FileCorrupt \<Rightarrow> (Map.empty, f)
      | FileJson m \<Rightarrow> (m, f))"

definition save_spy_data :: "'r spy_file \<Rightarrow> (string \<rightharpoonup> 'r) \<Rightarrow> 'r spy_file" where
  "save_spy_data f spy_data = FileJson spy_data"

definition add_spy_data ::
  "spy spy_file \<Rightarrow> real \<Rightarrow> string \<Rightarrow> string \<Rightarrow> int \<Rightarrow> int \<Rightarrow> int \<Rightarrow> int
     \<Rightarrow> (pyerr + spy) \<times> spy spy_file" where
  "add_spy_data f now now_str player_id strength speed dexterity defense =
     (let (all_spy_data, f1) = load_spy_data f;
          total = strength + speed + dexterity + defense;
          all_spy_data' = all_spy_data(player_id \<mapsto>
            \<lparr>s_strength = strength, s_speed = speed, s_dexterity = dexterity,
             s_defense = defense, s_total = total, s_timestamp = now, s_date = now_str\<rparr>);
          f2 = save_spy_data f1 all_spy_data'
      in (case all_spy_data' player_id of None \<Rightarrow> Inl KeyError | Some r \<Rightarrow> Inr r, f2))"

text \<open>Every record of the file has a total that is the sum of its four stats.\<close>

definition backup_totals_ok :: "backup_spy spy_file \<Rightarrow> bool" where
  "backup_totals_ok f =
     (case f of
        FileJson m \<Rightarrow> (\<forall>k r. m k = Some r \<longrightarrow> b_total r = b_str r + b_spd r + b_dex r + b_def r)
      | _ \<Rightarrow> True)"

definition totals_ok :: "spy spy_file \<Rightarrow> bool" where
  "totals_ok f =
     (case f of
        FileJson m \<Rightarrow>
          (\<forall>k r. m k = Some r \<longrightarrow> s_total r = s_strength r + s_speed r + s_dexterity r + s_defense r)
      | _ \<Rightarrow> True)"

subsection \<open>\<^verbatim>\<open>get_recommendation\<close>\<close>

text \<open>
  \<^verbatim>\<open>backup_utils\<close>: two totals (numbers, or \<^verbatim>\<open>None\<close>); the guard
  \<^verbatim>\<open>not enemy_total_stats or not my_total_stats\<close> comes before the division.
\<close>

definition backup_get_recommendation :: "json \<Rightarrow> json \<Rightarrow> pyerr + string" where
  "backup_get_recommendation my_total_stats enemy_total_stats =
     (if \<not> truthy enemy_total_stats \<or> \<not> truthy my_total_stats then Inr ''unknown''
      else ebind (py_div my_total_stats enemy_total_stats) (\<lambda>ratio.
           if ratio > 1.5 then Inr ''safe''
           else if ratio > 0.8 then Inr ''caution''
           else Inr ''avoid''))"

text \<open>\<^verbatim>\<open>bot_package\<close>: \<open>now\<close> is \<^verbatim>\<open>time.time()\<close>.\<close>

definition get_stat_confidence :: "real \<Rightarrow> json \<Rightarrow> pyerr + string" where
  "get_stat_confidence now spy_data =
     (if \<not> truthy spy_data then Inr ''none''
      else ebind (py_in ''timestamp'' spy_data) (\<lambda>has_timestamp.
           if \<not> has_timestamp then Inr ''none''
           else ebind (py_getitem spy_data ''timestamp'') (\<lambda>ts.
                ebind (py_sub now ts) (\<lambda>age_in_seconds.
                  let age_in_days = age_in_seconds / (60 * 60 * 24)
                  in if age_in_days < 7 then Inr ''high''
                     else if age_in_days < 30 then Inr ''medium''
                     else Inr ''low''))))"

definition get_recommendation :: "real \<Rightarrow> json \<Rightarrow> json \<Rightarrow> pyerr + string \<times> string" where
  "get_recommendation now your_stats enemy_stats =
     (if \<not> truthy enemy_stats then Inr (''No data available to make a recommendation'', ''none'')
      else ebind (py_get your_stats ''total'' (JInt 0)) (\<lambda>your_total.
           ebind (py_get enemy_stats ''total'' (JInt 0)) (\<lambda>enemy_total.
           if py_eq_zero your_total \<or> py_eq_zero enemy_total
           then Inr (''Insufficient data for recommendation'', ''none'')
           else ebind (py_div your_total enemy_total) (\<lambda>ratio.
                ebind (get_stat_confidence now enemy_stats) (\<lambda>confidence.
                  if ratio > 1.5
                  then Inr (''Highly favorable - You significantly outmatch this opponent'', confidence)
                  else if ratio > 1.1
                  then Inr (''Favorable - You have an advantage'', confidence)
                  else if ratio > 0.9
                  then Inr (''Even match - Battle could go either way'', confidence)
                  else if ratio > 0.7
                  then Inr (''Unfavorable - Opponent has an advantage'', confidence)
                  else Inr (''Highly unfavorable - Opponent significantly outmatches you'',
                            confidence))))))"

section \<open>The TornStats adapter\<close>

subsection \<open>The normalizer\<close>

text \<open>
  The dictionary literal that \<^verbatim>\<open>_normalize_tornstats_data\<close> writes three times, once per
  recognised shape, each field read with \<^verbatim>\<open>.get(key, default)\<close> from the same source.
\<close>

definition spy_record_from :: "json \<Rightarrow> pyerr + json" where
  "spy_record_from src =
     ebind (py_get src ''name'' (JStr ''Unknown'')) (\<lambda>name.
     ebind (py_get src ''level'' (JInt 0)) (\<lambda>level.
     ebind (py_get src ''strength'' (JInt 0)) (\<lambda>strength.
     ebind (py_get src ''defense'' (JInt 0)) (\<lambda>defense.
     ebind (py_get src ''speed'' (JInt 0)) (\<lambda>speed.
     ebind (py_get src ''dexterity'' (JInt 0)) (\<lambda>dexterity.
     ebind (py_get src ''update_time'' (JStr ''Unknown'')) (\<lambda>update_time.
     Inr (JObj [(''spy'', JObj
       [(''name'', name), (''level'', level), (''strength'', strength),
        (''defense'', defense), (''speed'', speed), (''dexterity'', dexterity),
        (''update_time'', update_time), (''source'', JStr ''TornStats API'')])]))))))))"

definition stat_names :: "string list" where
  "stat_names = [''strength'', ''defense'', ''speed'', ''dexterity'']"

definition normalize_tornstats_data :: "json \<Rightarrow> pyerr + json" where
  "normalize_tornstats_data data =
     ebind (py_in ''spy'' data) (\<lambda>has_spy.
     if has_spy then Inr data
     else
     ebind (py_in ''user'' data) (\<lambda>has_user.
     if has_user then ebind (py_getitem data ''user'') spy_record_from
     else
     ebind (py_in ''status'' data) (\<lambda>has_status.
     ebind (if has_status
            then ebind (py_getitem data ''status'') (\<lambda>st.
                   if st = JStr ''ok'' then py_in ''stats'' data else Inr False)
            else Inr False) (\<lambda>is_stats.
     if is_stats then ebind (py_getitem data ''stats'') spy_record_from
     else
       (case data of
          JObj kvs \<Rightarrow>
            if list_all (\<lambda>key. map_of kvs key \<noteq> None) stat_names
            then spy_record_from data
            else Inr data
        | _ \<Rightarrow> Inr data)))))"

subsection \<open>The cache\<close>

text \<open>
  A cache entry is \<^verbatim>\<open>{'data': ..., 'timestamp': ...}\<close>; the timestamp is the event loop's
  monotonic clock, read as a real number. \<^verbatim>\<open>cache_expiry\<close> is set to 3600 by the
  constructor and never assigned again.
\<close>

record cache_entry =
  data :: json
  timestamp :: real

definition cache_expiry :: real where
  "cache_expiry = 3600"

text \<open>
  A request as \<^verbatim>\<open>session.get\<close> receives it, and what the code reads of a response:
  the status, the outcome of \<^verbatim>\<open>await response.json(content_type=None)\<close>, the outcome of
  \<^verbatim>\<open>await response.text()\<close>, and the cookies.
\<close>

record request =
  url :: string
  headers :: "(string \<times> string) list"
  params :: "(string \<times> string) list"
  cookies :: "(string \<times> string) list"
  allow_redirects :: bool
  timeout :: nat

record response =
  status :: int
  json_body :: "pyerr + json"
  text_body :: "pyerr + string"
  resp_cookies :: "(string \<times> string) list"

text \<open>
  The adapter object: the credential (\<^verbatim>\<open>None\<close>, or a string that may be empty), whether a
  session is open, the cache, and (a ghost field) the requests issued so far, in order.
\<close>

record adapter =
  api_key :: "string option"
  session_open :: bool
  cache :: "string \<rightharpoonup> cache_entry"
  sent :: "request list"

definition get_from_cache :: "adapter \<Rightarrow> string \<Rightarrow> real \<Rightarrow> json \<times> adapter" where
  "get_from_cache a key now =
     (case cache a key of
        Some entry \<Rightarrow>
          if now - timestamp entry < cache_expiry then (data entry, a)
          else (JNull, a\<lparr>cache := (cache a)(key := None)\<rparr>)
      | None \<Rightarrow> (JNull, a))"

definition ensure_session :: "adapter \<Rightarrow> adapter" where
  "ensure_session a = (if session_open a then a else a\<lparr>session_open := True\<rparr>)"

subsection \<open>Python string operations\<close>

text \<open>The string methods the HTML extraction uses, on ASCII text.\<close>

definition is_space :: "char \<Rightarrow> bool" where
  "is_space c = (c \<in> set [CHR 0x09, CHR 0x0A, CHR 0x0B, CHR 0x0C, CHR 0x0D,
                            CHR 0x1C, CHR 0x1D, CHR 0x1E, CHR 0x1F, CHR 0x20])"

definition is_digit :: "char \<Rightarrow> bool" where
  "is_digit c = (c \<in> set ''0123456789'')"

definition digit_val :: "char \<Rightarrow> nat" where
  "digit_val c = (case map_of (zip ''0123456789'' [0, 1, 2, 3, 4, 5, 6, 7, 8, 9]) c of
                    Some n \<Rightarrow> n | None \<Rightarrow> 0)"

definition py_strip :: "string \<Rightarrow> string" where
  "py_strip s = rev (dropWhile is_space (rev (dropWhile is_space s)))"

definition lower_char :: "char \<Rightarrow> char" where
  "lower_char c = (case map_of (zip ''ABCDEFGHIJKLMNOPQRSTUVWXYZ'' ''abcdefghijklmnopqrstuvwxyz'') c of
                     Some l \<Rightarrow> l | None \<Rightarrow> c)"

definition upper_char :: "char \<Rightarrow> char" where
  "upper_char c = (case map_of (zip ''abcdefghijklmnopqrstuvwxyz'' ''ABCDEFGHIJKLMNOPQRSTUVWXYZ'') c of
                     Some u \<Rightarrow> u | None \<Rightarrow> c)"

definition py_lower :: "string \<Rightarrow> string" where
  "py_lower s = map lower_char s"

definition py_capitalize :: "string \<Rightarrow> string" where
  "py_capitalize s = (case s of [] \<Rightarrow> [] | c # cs \<Rightarrow> upper_char c # map lower_char cs)"

text \<open>\<^verbatim>\<open>s.replace(',', '')\<close>.\<close>

definition remove_commas :: "string \<Rightarrow> string" where
  "remove_commas s = filter (\<lambda>c. c \<noteq> CHR '',''  ) s"

text \<open>
  \<^verbatim>\<open>s.split(sep)\<close> for a separator that is not empty: \<open>skip\<close> counts the characters of a
  separator just matched that are still to be passed over.
\<close>

fun py_split_aux :: "string \<Rightarrow> nat \<Rightarrow> string \<Rightarrow> string \<Rightarrow> string list" where
  "py_split_aux sep skip acc [] = [rev acc]"
| "py_split_aux sep skip acc (c # cs) =
     (if skip > 0 then py_split_aux sep (skip - 1) acc cs
      else if take (length sep) (c # cs) = sep then rev acc # py_split_aux sep (length sep - 1) [] cs
      else py_split_aux sep 0 (c # acc) cs)"

definition py_split :: "string \<Rightarrow> string \<Rightarrow> string list" where
  "py_split sep s = py_split_aux sep 0 [] s"

text \<open>\<^verbatim>\<open>s.split()\<close>: the words between runs of whitespace.\<close>

fun py_split_ws_aux :: "string \<Rightarrow> string \<Rightarrow> string list" where
  "py_split_ws_aux acc [] = (if acc = [] then [] else [rev acc])"
| "py_split_ws_aux acc (c # cs) =
     (if is_space c then (if acc = [] then py_split_ws_aux [] cs else rev acc # py_split_ws_aux [] cs)
      else py_split_ws_aux (c # acc) cs)"

definition py_split_ws :: "string \<Rightarrow> string list" where
  "py_split_ws s = py_split_ws_aux [] s"

text \<open>\<^verbatim>\<open>xs[i]\<close> on a list: \<^verbatim>\<open>IndexError\<close> out of range.\<close>

definition py_nth :: "'a list \<Rightarrow> nat \<Rightarrow> pyerr + 'a" where
  "py_nth xs i = (if i < length xs then Inr (xs ! i) else Inl IndexError)"

text \<open>
  \<^verbatim>\<open>int(s)\<close> on a string: surrounding whitespace, an optional sign, then decimal digits,
  single underscores allowed between digits; \<^verbatim>\<open>ValueError\<close> otherwise.
\<close>

fun digits_value :: "nat \<Rightarrow> bool \<Rightarrow> string \<Rightarrow> nat option" where
  "digits_value n after_digit [] = (if after_digit then Some n else None)"
| "digits_value n after_digit (c # cs) =
     (if is_digit c then digits_value (10 * n + digit_val c) True cs
      else if c = CHR ''_'' \<and> after_digit then digits_value n False cs
      else None)"

definition py_int :: "string \<Rightarrow> pyerr + int" where
  "py_int s =
     (case py_strip s of
        [] \<Rightarrow> Inl ValueError
      | c # cs \<Rightarrow>
          if c = CHR ''-'' then
            (case digits_value 0 False cs of None \<Rightarrow> Inl ValueError | Some n \<Rightarrow> Inr (- int n))
          else if c = CHR ''+'' then
            (case digits_value 0 False cs of None \<Rightarrow> Inl ValueError | Some n \<Rightarrow> Inr (int n))
          else
            (case digits_value 0 False (c # cs) of None \<Rightarrow> Inl ValueError | Some n \<Rightarrow> Inr (int n)))"

text \<open>\<^verbatim>\<open>s.index(sub, start)\<close>: the first position at or after \<open>start\<close>, or \<^verbatim>\<open>ValueError\<close>.\<close>

fun find_from :: "string \<Rightarrow> string \<Rightarrow> nat \<Rightarrow> nat option" where
  "find_from sub [] i = (if sub = [] then Some i else None)"
| "find_from sub (c # cs) i =
     (if take (length sub) (c # cs) = sub then Some i else find_from sub cs (Suc i))"

definition py_index :: "string \<Rightarrow> string \<Rightarrow> nat \<Rightarrow> pyerr + nat" where
  "py_index s sub start =
     (case find_from sub (drop start s) start of None \<Rightarrow> Inl ValueError | Some i \<Rightarrow> Inr i)"

text \<open>Dictionaries of integers (the extracted stats), in insertion order.\<close>

fun dict_set :: "string \<Rightarrow> int \<Rightarrow> (string \<times> int) list \<Rightarrow> (string \<times> int) list" where
  "dict_set k v [] = [(k, v)]"
| "dict_set k v ((k', v') # rest) =
     (if k' = k then (k, v) # rest else (k', v') # dict_set k v rest)"

definition int_get :: "(string \<times> int) list \<Rightarrow> string \<Rightarrow> int \<Rightarrow> int" where
  "int_get d k dflt = (case map_of d k of None \<Rightarrow> dflt | Some v \<Rightarrow> v)"

definition sum_values :: "(string \<times> int) list \<Rightarrow> int" where
  "sum_values d = sum_list (map snd d)"

subsection \<open>HTML extraction\<close>

text \<open>
  The parsed document is read only through BeautifulSoup queries, so a document is
  modelled by what those queries return. Of an element found by \<^verbatim>\<open>find\<close>:
  \<open>class_text\<close> maps a class name \<open>c\<close> to the \<^verbatim>\<open>.text\<close> of \<^verbatim>\<open>find(class_=c)\<close>, and
  \<open>tag_strings\<close> lists its text nodes (what \<^verbatim>\<open>find_all(text=...)\<close> filters). Of the
  document: \<open>find_div\<close> maps a class name \<open>c\<close> to \<^verbatim>\<open>find('div', class_=c)\<close>, \<open>tables\<close> lists
  for every table the \<^verbatim>\<open>.text\<close> of its \<^verbatim>\<open>td\<close> cells, \<open>strings\<close> lists the text nodes, and
  \<open>title\<close>, \<open>h1\<close>, \<open>h2_playerName\<close> are the \<^verbatim>\<open>.text\<close> of \<^verbatim>\<open>find('title')\<close>, \<^verbatim>\<open>find('h1')\<close>
  and \<^verbatim>\<open>find('h2', class_='playerName')\<close>. An element that was found counts as true.
\<close>

record tag =
  class_text :: "(string \<times> string) list"
  tag_strings :: "string list"

record soup =
  find_div :: "(string \<times> tag) list"
  tables :: "string list list"
  strings :: "string list"
  title :: "string option"
  h1 :: "string option"
  h2_playerName :: "string option"

text \<open>\<^verbatim>\<open>a or b\<close> on two results of \<^verbatim>\<open>find\<close>.\<close>

definition or_else :: "'a option \<Rightarrow> 'a option \<Rightarrow> 'a option" where
  "or_else a b = (case a of Some x \<Rightarrow> Some x | None \<Rightarrow> b)"

text \<open>
  \<^verbatim>\<open>try: stats[stat] = int(text.strip().replace(',', '')) except ValueError: pass\<close>;
  \<open>py_int\<close> raises nothing but \<^verbatim>\<open>ValueError\<close>.
\<close>

definition set_from_text :: "string \<Rightarrow> string \<Rightarrow> (string \<times> int) list \<Rightarrow> (string \<times> int) list" where
  "set_from_text stat text stats =
     (case py_int (remove_commas (py_strip text)) of
        Inr v \<Rightarrow> dict_set stat v stats
      | Inl e \<Rightarrow> stats)"

text \<open>
  \<^verbatim>\<open>int(text.split(pattern)[1].strip().split()[0].replace(',', ''))\<close> with
  \<^verbatim>\<open>text = element.strip()\<close>; it raises \<^verbatim>\<open>IndexError\<close> or \<^verbatim>\<open>ValueError\<close> only.
\<close>

definition value_after :: "string \<Rightarrow> string \<Rightarrow> pyerr + int" where
  "value_after pattern element =
     (let text = py_strip element in
      ebind (py_nth (py_split pattern text) 1) (\<lambda>rest.
      ebind (py_nth (py_split_ws (py_strip rest)) 0) (\<lambda>word.
      py_int (remove_commas word))))"

text \<open>
  The loop over the text nodes that contain \<^verbatim>\<open>"<Stat>:"\<close>, with
  \<^verbatim>\<open>except (IndexError, ValueError): pass\<close> around each.
\<close>

definition labelled_values ::
  "string \<Rightarrow> string list \<Rightarrow> (string \<times> int) list \<Rightarrow> (string \<times> int) list" where
  "labelled_values stat texts stats =
     (let pattern = py_capitalize stat @ '':''
      in foldl (\<lambda>d element. case value_after pattern element of
                                Inr v \<Rightarrow> dict_set stat v d
                              | Inl e \<Rightarrow> d)
           stats (filter (str_contains pattern) texts))"

definition extract_stats_from_div :: "tag \<Rightarrow> (string \<times> int) list" where
  "extract_stats_from_div container =
     (let stats0 = [(''strength'', 0), (''defense'', 0), (''speed'', 0), (''dexterity'', 0)];
          stats1 = foldl (\<lambda>stats stat.
                      case or_else (map_of (class_text container) (''stat-'' @ stat))
                                   (map_of (class_text container) stat) of
                        Some text \<Rightarrow> set_from_text stat text stats
                      | None \<Rightarrow> stats)
                    stats0 (map fst stats0)
      in if sum_values stats1 = 0
         then foldl (\<lambda>stats stat. labelled_values stat (tag_strings container) stats)
                stats1 (map fst stats1)
         else stats1)"

text \<open>The table scan: a cell that names a stat, followed by a cell that is not blank.\<close>

fun scan_cells :: "string list \<Rightarrow> (string \<times> int) list \<Rightarrow> (string \<times> int) list" where
  "scan_cells [] d = d"
| "scan_cells (cell # rest) d =
     scan_cells rest
       (if py_lower (py_strip cell) \<in> set [''strength'', ''speed'', ''dexterity'', ''defense'']
        then (case rest of
                [] \<Rightarrow> d
              | following # _ \<Rightarrow>
                  if py_strip following \<noteq> []
                  then set_from_text (py_lower (py_strip cell)) following d
                  else d)
        else d)"

text \<open>The level: the digits of the first text node mentioning it that has any.\<close>

fun first_level :: "string list \<Rightarrow> int" where
  "first_level [] = 0"
| "first_level (element # rest) =
     (let level_value = filter is_digit (py_strip element)
      in if level_value \<noteq> []
         then (case py_int level_value of Inr n \<Rightarrow> n | Inl e \<Rightarrow> first_level rest)
         else first_level rest)"

text \<open>
  The body of \<^verbatim>\<open>_parse_html_profile\<close> for one page whose status is 200: \<open>Some\<close> the
  record it returns, or \<open>None\<close> when no stat was found and the loop goes on.
\<close>

definition parse_profile_page :: "soup \<Rightarrow> string \<Rightarrow> json option" where
  "parse_profile_page sp player_id =
     (let stats_div = or_else (map_of (find_div sp) ''player-stats'')
                              (map_of (find_div sp) ''statsList'');
          data0 = (case stats_div of Some container \<Rightarrow> extract_stats_from_div container
                   | None \<Rightarrow> []);
          data1 = (if data0 = [] \<or> sum_values data0 = 0
                   then foldl (\<lambda>d cells. scan_cells cells d) data0 (tables sp)
                   else data0);
          data2 = (if data1 = [] \<or> sum_values data1 = 0
                   then foldl (\<lambda>d stat. labelled_values stat (strings sp) d) data1
                          [''strength'', ''speed'', ''dexterity'', ''defense'']
                   else data1);
          name = (case title sp of
                    None \<Rightarrow> []
                  | Some t \<Rightarrow>
                      if str_contains '' - '' t
                      then (case py_split '' - '' t of [] \<Rightarrow> [] | part # _ \<Rightarrow> py_strip part)
                      else []);
          level = first_level
                    (filter (\<lambda>t. str_contains ''Level:'' t \<or> str_contains ''Level'' t) (strings sp))
      in if data2 \<noteq> [] \<and> sum_values data2 > 0
         then Some (JObj [(''spy'', JObj
                [(''name'', JStr (if name \<noteq> [] then name else ''Player '' @ player_id)),
                 (''level'', JInt level),
                 (''strength'', JInt (int_get data2 ''strength'' 0)),
                 (''defense'', JInt (int_get data2 ''defense'' 0)),
                 (''speed'', JInt (int_get data2 ''speed'' 0)),
                 (''dexterity'', JInt (int_get data2 ''dexterity'' 0)),
                 (''update_time'', JStr ''HTML Extraction''),
                 (''source'', JStr ''HTML'')])])
         else None)"

text \<open>\<^verbatim>\<open>_parse_tornstats_spy_html\<close>; \<open>JNull\<close> is \<^verbatim>\<open>None\<close>.\<close>

definition parse_tornstats_spy_html :: "soup \<Rightarrow> string \<Rightarrow> json" where
  "parse_tornstats_spy_html sp player_id =
     (case or_else (map_of (find_div sp) ''playerStats'') (map_of (find_div sp) ''spy-stats'') of
        None \<Rightarrow> JNull
      | Some stats_container \<Rightarrow>
          let stats = extract_stats_from_div stats_container;
              name = (case or_else (h1 sp) (h2_playerName sp) of
                        Some t \<Rightarrow> py_strip t
                      | None \<Rightarrow> ''Player '' @ player_id);
              level = (case find (str_contains ''Level:'') (strings sp) of
                         None \<Rightarrow> 0
                       | Some level_elem \<Rightarrow>
                           (case py_int (filter is_digit (py_strip level_elem)) of
                              Inr n \<Rightarrow> n
                            | Inl e \<Rightarrow> 0))
          in JObj [(''spy'', JObj
               [(''name'', JStr name),
                (''level'', JInt level),
                (''strength'', JInt (int_get stats ''strength'' 0)),
                (''defense'', JInt (int_get stats ''defense'' 0)),
                (''speed'', JInt (int_get stats ''speed'' 0)),
                (''dexterity'', JInt (int_get stats ''dexterity'' 0)),
                (''update_time'', JStr ''HTML Extraction''),
                (''source'', JStr ''HTML Spy'')])])"

subsection \<open>The world outside the adapter\<close>

text \<open>
  What the code cannot control: \<open>net n req\<close> is the outcome of the request \<open>req\<close> issued
  after \<open>n\<close> earlier ones (a response, or the exception \<^verbatim>\<open>session.get\<close> raises);
  \<open>json_loads\<close> is \<^verbatim>\<open>json.loads\<close> and \<open>soup_of\<close> is \<^verbatim>\<open>BeautifulSoup(html, 'html.parser')\<close>.
\<close>

record env =
  net :: "nat \<Rightarrow> request \<Rightarrow> pyerr + response"
  json_loads :: "string \<Rightarrow> pyerr + json"
  soup_of :: "string \<Rightarrow> pyerr + soup"

definition session_get :: "env \<Rightarrow> adapter \<Rightarrow> request \<Rightarrow> (pyerr + response) \<times> adapter" where
  "session_get e a req = (net e (length (sent a)) req, a\<lparr>sent := sent a @ [req]\<rparr>)"

subsection \<open>The JSON-API strategy\<close>

definition endpoints :: "string \<Rightarrow> string list" where
  "endpoints player_id =
     [''https://www.tornstats.com/api/v1/player/'' @ player_id,
      ''https://www.tornstats.com/api/v1/player/'' @ player_id @ ''/full'',
      ''https://www.tornstats.com/api/v1/battles/'' @ player_id]"

definition bearer_request :: "string \<Rightarrow> string \<Rightarrow> request" where
  "bearer_request key endpoint =
     \<lparr>url = endpoint,
      headers = [(''User-Agent'', ''BrotherOwlManager/1.0''), (''Accept'', ''application/json''),
                 (''Referer'', ''https://www.tornstats.com/''),
                 (''Authorization'', ''Bearer '' @ key)],
      params = [], cookies = [], allow_redirects = True, timeout = 5\<rparr>"

definition key_param_request :: "string \<Rightarrow> string \<Rightarrow> request" where
  "key_param_request key endpoint =
     \<lparr>url = endpoint @ ''?key='' @ key, headers = [], params = [], cookies = [],
      allow_redirects = True, timeout = 5\<rparr>"

text \<open>
  One pass of either loop, inside its \<^verbatim>\<open>try\<close>: \<open>Inr (Some v)\<close> when the body returns \<open>v\<close>,
  \<open>Inr None\<close> when it falls through or takes the inner \<^verbatim>\<open>continue\<close>
  (\<^verbatim>\<open>except json.JSONDecodeError\<close>), \<open>Inl\<close> when an exception leaves the body.
\<close>

definition json_attempt :: "env \<Rightarrow> adapter \<Rightarrow> request \<Rightarrow> (pyerr + json option) \<times> adapter" where
  "json_attempt e a req =
     (let (outcome, a') = session_get e a req
      in (ebind outcome (\<lambda>resp.
            if status resp = 200 then
              (case json_body resp of
                 Inl err \<Rightarrow> if err = JSONDecodeError then Inr None else Inl err
               | Inr d \<Rightarrow>
                   if truthy d then ebind (normalize_tornstats_data d) (\<lambda>v. Inr (Some v))
                   else Inr None)
            else Inr None), a'))"

text \<open>The loop: \<^verbatim>\<open>except Exception: continue\<close> around each pass.\<close>

fun json_loop :: "env \<Rightarrow> adapter \<Rightarrow> request list \<Rightarrow> json option \<times> adapter" where
  "json_loop e a [] = (None, a)"
| "json_loop e a (req # reqs) =
     (case json_attempt e a req of
        (Inr (Some v), a') \<Rightarrow> (Some v, a')
      | (Inr None, a') \<Rightarrow> json_loop e a' reqs
      | (Inl err, a') \<Rightarrow> json_loop e a' reqs)"

definition fetch_json_api :: "env \<Rightarrow> adapter \<Rightarrow> string \<Rightarrow> (pyerr + json) \<times> adapter" where
  "fetch_json_api e a player_id =
     (case api_key a of
        None \<Rightarrow> (Inr JNull, a)
      | Some key \<Rightarrow>
          if key = [] then (Inr JNull, a)
          else
            (case json_loop e a (map (bearer_request key) (endpoints player_id)) of
               (Some v, a1) \<Rightarrow> (Inr v, a1)
             | (None, a1) \<Rightarrow>
                 (case json_loop e a1 (map (key_param_request key) (endpoints player_id)) of
                    (Some v, a2) \<Rightarrow> (Inr v, a2)
                  | (None, a2) \<Rightarrow> (Inr JNull, a2))))"

subsection \<open>The anonymous HTML strategy\<close>

definition base_url :: string where
  "base_url = ''https://www.tornstats.com''"

definition profile_urls :: "string \<Rightarrow> string list" where
  "profile_urls player_id =
     [''https://www.tornstats.com/profiles/'' @ player_id,
      base_url @ ''/player.php?id='' @ player_id,
      base_url @ ''/profiles.php?XID='' @ player_id,
      base_url @ ''/spy.php?id='' @ player_id]"

definition html_request :: "string \<Rightarrow> request" where
  "html_request u =
     \<lparr>url = u,
      headers = [(''User-Agent'', ''BrotherOwlManager/1.0''), (''Accept'', ''text/html''),
                 (''Referer'', ''https://www.tornstats.com/'')],
      params = [], cookies = [], allow_redirects = True, timeout = 10\<rparr>"

definition html_attempt ::
  "env \<Rightarrow> adapter \<Rightarrow> string \<Rightarrow> string \<Rightarrow> (pyerr + json option) \<times> adapter" where
  "html_attempt e a player_id u =
     (let (outcome, a') = session_get e a (html_request u)
      in (ebind outcome (\<lambda>resp.
            if status resp \<noteq> 200 then Inr None
            else ebind (text_body resp) (\<lambda>html.
                 ebind (soup_of e html) (\<lambda>sp.
                 Inr (parse_profile_page sp player_id)))), a'))"

fun html_loop :: "env \<Rightarrow> adapter \<Rightarrow> string \<Rightarrow> string list \<Rightarrow> json option \<times> adapter" where
  "html_loop e a player_id [] = (None, a)"
| "html_loop e a player_id (u # us) =
     (case html_attempt e a player_id u of
        (Inr (Some v), a') \<Rightarrow> (Some v, a')
      | (Inr None, a') \<Rightarrow> html_loop e a' player_id us
      | (Inl err, a') \<Rightarrow> html_loop e a' player_id us)"

definition parse_html_profile :: "env \<Rightarrow> adapter \<Rightarrow> string \<Rightarrow> (pyerr + json) \<times> adapter" where
  "parse_html_profile e a player_id =
     (case html_loop e a player_id (profile_urls player_id) of
        (Some v, a') \<Rightarrow> (Inr v, a')
      | (None, a') \<Rightarrow> (Inr JNull, a'))"

subsection \<open>The authenticated strategy\<close>

text \<open>\<^verbatim>\<open>html[i:j]\<close> for \<open>0 \<le> i\<close> and \<open>0 \<le> j\<close>.\<close>

definition py_slice :: "string \<Rightarrow> nat \<Rightarrow> nat \<Rightarrow> string" where
  "py_slice s i j = take (j - i) (drop i s)"

definition extract_json_from_html :: "env \<Rightarrow> string \<Rightarrow> json" where
  "extract_json_from_html e html =
     (let start_marker = ''var playerData = ''
      in case (if str_contains start_marker html
               then ebind (py_index html start_marker 0) (\<lambda>i.
                    let json_start = i + length start_marker
                    in ebind (py_index html '';'' json_start) (\<lambda>json_end.
                       let json_str = py_strip (py_slice html json_start json_end)
                       in ebind (json_loads e json_str) normalize_tornstats_data))
               else Inr JNull) of
           Inl err \<Rightarrow> JNull
         | Inr v \<Rightarrow> v)"

definition login_request :: "string \<Rightarrow> request" where
  "login_request key =
     \<lparr>url = base_url @ ''/login.php'', headers = [], params = [(''tornstats_api'', key)],
      cookies = [], allow_redirects = False, timeout = 10\<rparr>"

definition spy_request :: "string \<Rightarrow> (string \<times> string) list \<Rightarrow> request" where
  "spy_request player_id cs =
     \<lparr>url = base_url @ ''/spy.php?id='' @ player_id, headers = [], params = [], cookies = cs,
      allow_redirects = True, timeout = 10\<rparr>"

text \<open>
  The body of the \<^verbatim>\<open>try\<close> of \<^verbatim>\<open>_try_authenticated_access\<close>: \<open>Inr (Some v)\<close> when it
  returns \<open>v\<close>, \<open>Inr None\<close> when it falls through to the final \<^verbatim>\<open>return None\<close>.
\<close>

definition authenticated_attempt ::
  "env \<Rightarrow> adapter \<Rightarrow> string \<Rightarrow> string \<Rightarrow> (pyerr + json option) \<times> adapter" where
  "authenticated_attempt e a key player_id =
     (let (login_outcome, a1) = session_get e a (login_request key)
      in case login_outcome of
           Inl err \<Rightarrow> (Inl err, a1)
         | Inr login_response \<Rightarrow>
             let (spy_outcome, a2) =
                   session_get e a1 (spy_request player_id (resp_cookies login_response))
             in (ebind spy_outcome (\<lambda>spy_response.
                   if status spy_response = 200 then
                     ebind (text_body spy_response) (\<lambda>html.
                       let json_data = extract_json_from_html e html
                       in if truthy json_data then Inr (Some json_data)
                          else ebind (soup_of e html) (\<lambda>sp.
                               Inr (Some (parse_tornstats_spy_html sp player_id))))
                   else Inr None), a2))"

definition try_authenticated_access ::
  "env \<Rightarrow> adapter \<Rightarrow> string \<Rightarrow> (pyerr + json) \<times> adapter" where
  "try_authenticated_access e a player_id =
     (case api_key a of
        None \<Rightarrow> (Inr JNull, a)
      | Some key \<Rightarrow>
          if key = [] then (Inr JNull, a)
          else
            (case authenticated_attempt e a key player_id of
               (Inr (Some v), a') \<Rightarrow> (Inr v, a')
             | (Inr None, a') \<Rightarrow> (Inr JNull, a')
             | (Inl err, a') \<Rightarrow> (Inr JNull, a')))"

subsection \<open>The orchestrator\<close>

text \<open>
  \<^verbatim>\<open>self.cache[cache_key] = {'data': v, 'timestamp': loop.time()}\<close>, then \<^verbatim>\<open>return v\<close>.
\<close>

definition store :: "adapter \<Rightarrow> string \<Rightarrow> json \<Rightarrow> real \<Rightarrow> adapter" where
  "store a cache_key v t = a\<lparr>cache := (cache a)(cache_key \<mapsto> \<lparr>data = v, timestamp = t\<rparr>)\<rparr>"

text \<open>The body of the \<^verbatim>\<open>try\<close> of \<^verbatim>\<open>get_player_data\<close>; \<open>later\<close> is the clock at the store.\<close>

definition fetch_fresh ::
  "env \<Rightarrow> adapter \<Rightarrow> string \<Rightarrow> string \<Rightarrow> real \<Rightarrow> (pyerr + json) \<times> adapter" where
  "fetch_fresh e a cache_key player_id later =
     (let a0 = ensure_session a;
          (r1, a1) = fetch_json_api e a0 player_id
      in case r1 of
           Inl err \<Rightarrow> (Inl err, a1)
         | Inr json_data \<Rightarrow>
             if truthy json_data then (Inr json_data, store a1 cache_key json_data later)
             else
               let (r2, a2) = parse_html_profile e a1 player_id
               in case r2 of
                    Inl err \<Rightarrow> (Inl err, a2)
                  | Inr html_data \<Rightarrow>
                      if truthy html_data then (Inr html_data, store a2 cache_key html_data later)
                      else
                        let (r3, a3) = try_authenticated_access e a2 player_id
                        in case r3 of
                             Inl err \<Rightarrow> (Inl err, a3)
                           | Inr auth_data \<Rightarrow>
                               if truthy auth_data
                               then (Inr auth_data, store a3 cache_key auth_data later)
                               else (Inr JNull, a3))"

text \<open>
  \<^verbatim>\<open>get_player_data\<close>: \<open>now\<close> is the clock read by \<^verbatim>\<open>get_from_cache\<close>, \<open>later\<close> the clock
  read when a result is stored. The handler \<^verbatim>\<open>except Exception\<close> turns an exception of
  the body into \<^verbatim>\<open>None\<close>.
\<close>

definition get_player_data ::
  "env \<Rightarrow> adapter \<Rightarrow> string \<Rightarrow> real \<Rightarrow> real \<Rightarrow> (pyerr + json) \<times> adapter" where
  "get_player_data e a player_id now later =
     (let cache_key = ''player_'' @ player_id;
          (cached_data, a0) = get_from_cache a cache_key now
      in if truthy cached_data then (Inr cached_data, a0)
         else (case fetch_fresh e a0 cache_key player_id later of
                 (Inl err, a') \<Rightarrow> (Inr JNull, a')
               | (Inr v, a') \<Rightarrow> (Inr v, a')))"

subsection \<open>Vocabulary of the properties\<close>

text \<open>The canonical record the normalizer builds from the fields \<open>f\<close>.\<close>

definition canonical_record :: "(string \<times> json) list \<Rightarrow> json" where
  "canonical_record f =
     JObj [(''spy'', JObj
       [(''name'', dict_get f ''name'' (JStr ''Unknown'')),
        (''level'', dict_get f ''level'' (JInt 0)),
        (''strength'', dict_get f ''strength'' (JInt 0)),
        (''defense'', dict_get f ''defense'' (JInt 0)),
        (''speed'', dict_get f ''speed'' (JInt 0)),
        (''dexterity'', dict_get f ''dexterity'' (JInt 0)),
        (''update_time'', dict_get f ''update_time'' (JStr ''Unknown'')),
        (''source'', JStr ''TornStats API'')])]"

text \<open>The test \<^verbatim>\<open>'status' in data and data['status'] == 'ok' and 'stats' in data\<close>.\<close>

definition stats_shaped :: "(string \<times> json) list \<Rightarrow> bool" where
  "stats_shaped kvs = (map_of kvs ''status'' = Some (JStr ''ok'') \<and> map_of kvs ''stats'' \<noteq> None)"

text \<open>A record whose \<^verbatim>\<open>'spy'\<close> object has all eight keys.\<close>

definition spy_keys :: "string list" where
  "spy_keys = [''name'', ''level'', ''strength'', ''defense'', ''speed'', ''dexterity'',
               ''update_time'', ''source'']"

definition has_spy_keys :: "json \<Rightarrow> bool" where
  "has_spy_keys v =
     (case v of
        JObj kvs \<Rightarrow>
          (case map_of kvs ''spy'' of
             Some (JObj f) \<Rightarrow> list_all (\<lambda>k. map_of f k \<noteq> None) spy_keys
           | _ \<Rightarrow> False)
      | _ \<Rightarrow> False)"

text \<open>
  A JSON value that came from the server (the body of a response, or a text that
  \<^verbatim>\<open>json.loads\<close> decoded) and that the normalizer returns as it is.
\<close>

definition passed_through :: "env \<Rightarrow> json \<Rightarrow> bool" where
  "passed_through e v =
     (((\<exists>n req resp. net e n req = Inr resp \<and> json_body resp = Inr v)
        \<or> (\<exists>s. json_loads e s = Inr v))
      \<and> normalize_tornstats_data v = Inr v)"

text \<open>The adapter after the requests \<open>rs\<close> have been issued, nothing else changed.\<close>

definition sent_more :: "adapter \<Rightarrow> request list \<Rightarrow> adapter" where
  "sent_more a rs = a\<lparr>sent := sent a @ rs\<rparr>"

text \<open>
  A value that counts as data (true in Python) and is either a record with all eight keys
  or a server value passed through.
\<close>

definition good_result :: "env \<Rightarrow> json \<Rightarrow> bool" where
  "good_result e v = (truthy v \<and> (has_spy_keys v \<or> passed_through e v))"

text \<open>What every strategy returns: a value and the requests it added to the log.\<close>

definition strategy_outcome ::
  "env \<Rightarrow> adapter \<Rightarrow> (pyerr + json) \<times> adapter \<Rightarrow> json \<Rightarrow> request list \<Rightarrow> bool" where
  "strategy_outcome e a res v rs =
     (res = (Inr v, sent_more a rs) \<and> (v = JNull \<or> good_result e v))"

text \<open>The adapter as the constructor leaves it; \<open>key\<close> is \<^verbatim>\<open>api_key or os.environ.get(...)\<close>.\<close>

definition init_adapter :: "string option \<Rightarrow> adapter" where
  "init_adapter key = \<lparr>api_key = key, session_open = False, cache = Map.empty, sent = []\<rparr>"

text \<open>A host that answers no request: every \<^verbatim>\<open>session.get\<close> raises.\<close>

definition unreachable :: "env \<Rightarrow> bool" where
  "unreachable e = (\<forall>n req. \<exists>err. net e n req = Inl err)"

text \<open>
  Sample worlds for the examples: a server that gives the listed outcomes to the first
  requests and refuses every later one, a response with status 200 and a JSON body, and an
  adapter without credential that has cached \<open>v\<close> for player \<^verbatim>\<open>1\<close> at time \<open>t\<close>.
\<close>

definition scripted :: "(pyerr + response) list \<Rightarrow> env" where
  "scripted outcomes =
     \<lparr>net = (\<lambda>n req. if n < length outcomes then outcomes ! n else Inl ClientError),
      json_loads = (\<lambda>s. Inl JSONDecodeError),
      soup_of = (\<lambda>s. Inl ValueError)\<rparr>"

definition json_response :: "json \<Rightarrow> response" where
  "json_response body =
     \<lparr>status = 200, json_body = Inr body, text_body = Inl ValueError, resp_cookies = []\<rparr>"

definition cached_adapter :: "json \<Rightarrow> real \<Rightarrow> adapter" where
  "cached_adapter v t =
     \<lparr>api_key = None, session_open = True,
      cache = [''player_1'' \<mapsto> \<lparr>data = v, timestamp = t\<rparr>], sent = []\<rparr>"

section \<open>Properties of the stat estimator\<close>

lemma ebind_Inl_iff: "ebind m f = Inl e \<longleftrightarrow> m = Inl e \<or> (\<exists>x. m = Inr x \<and> f x = Inl e)"
  by (cases m) (auto simp: ebind_def)

lemma ebind_Inr [simp]: "ebind (Inr x) f = f x"
  by (simp add: ebind_def)

lemma ebind_Inl [simp]: "ebind (Inl e) f = Inl e"
  by (simp add: ebind_def)









lemma backup_add_spy_data_result:
  "backup_add_spy_data f now_iso pid a b c d =
     (Inr \<lparr>b_str = a, b_spd = b, b_dex = c, b_def = d, b_total = a + b + c + d,
           b_timestamp = now_iso\<rparr>,
      FileJson ((fst (backup_load_spy_data f))(pid \<mapsto>
          \<lparr>b_str = a, b_spd = b, b_dex = c, b_def = d, b_total = a + b + c + d,
           b_timestamp = now_iso\<rparr>)))"
  by (simp add: backup_add_spy_data_def backup_save_spy_data_def Let_def split: prod.splits)

lemma add_spy_data_result:
  "add_spy_data f now now_str pid a b c d =
     (Inr \<lparr>s_strength = a, s_speed = b, s_dexterity = c, s_defense = d, s_total = a + b + c + d,
           s_timestamp = now, s_date = now_str\<rparr>,
      FileJson ((fst (load_spy_data f))(pid \<mapsto>
          \<lparr>s_strength = a, s_speed = b, s_dexterity = c, s_defense = d, s_total = a + b + c + d,
           s_timestamp = now, s_date = now_str\<rparr>)))"
  by (simp add: add_spy_data_def save_spy_data_def Let_def split: prod.splits)

lemma backup_totals_ok_preserved:
  "backup_totals_ok f \<Longrightarrow> backup_totals_ok (snd (backup_add_spy_data f now_iso pid a b c d))"
  by (auto simp: backup_add_spy_data_result backup_totals_ok_def backup_load_spy_data_def
        backup_ensure_spy_file_exists_def Let_def split: spy_file.splits if_splits)

lemma totals_ok_preserved:
  "totals_ok f \<Longrightarrow> totals_ok (snd (add_spy_data f now now_str pid a b c d))"
  by (auto simp: add_spy_data_result totals_ok_def load_spy_data_def
        split: spy_file.splits if_splits)

text \<open>
  C9. In both implementations \<^verbatim>\<open>add_spy_data\<close> returns, and stores under the player's key,
  a record that holds the four stats given, their sum as \<^verbatim>\<open>total\<close>, and the timestamp. A
  spy file that does not exist yet satisfies "every record's total is the sum of its
  stats", and \<^verbatim>\<open>add_spy_data\<close> keeps that true, so it holds of every file the function has
  built.
\<close>

theorem add_spy_data_total_is_sum:
  "(\<exists>r m. backup_add_spy_data fb now_iso pid a b c d = (Inr r, FileJson m) \<and> m pid = Some r
        \<and> b_str r = a \<and> b_spd r = b \<and> b_dex r = c \<and> b_def r = d
        \<and> b_total r = a + b + c + d \<and> b_timestamp r = now_iso)
   \<and> (\<exists>r m. add_spy_data f now now_str pid a b c d = (Inr r, FileJson m) \<and> m pid = Some r
        \<and> s_strength r = a \<and> s_speed r = b \<and> s_dexterity r = c \<and> s_defense r = d
        \<and> s_total r = a + b + c + d \<and> s_timestamp r = now)
   \<and> backup_totals_ok FileMissing \<and> totals_ok FileMissing
   \<and> (backup_totals_ok fb \<longrightarrow> backup_totals_ok (snd (backup_add_spy_data fb now_iso pid a b c d)))
   \<and> (totals_ok f \<longrightarrow> totals_ok (snd (add_spy_data f now now_str pid a b c d)))"
proof -
  have "backup_totals_ok FileMissing" "totals_ok FileMissing"
    by (simp_all add: backup_totals_ok_def totals_ok_def)
  then show ?thesis
    using backup_totals_ok_preserved[of fb now_iso pid a b c d]
      totals_ok_preserved[of f now now_str pid a b c d]
    by (simp add: backup_add_spy_data_result add_spy_data_result)
qed

theorem add_spy_data_total_is_sum_witness:
  "fst (backup_add_spy_data FileMissing ''2025-01-01T00:00:00'' ''12345'' 1000000 800000 700000 500000)
     = Inr \<lparr>b_str = 1000000, b_spd = 800000, b_dex = 700000, b_def = 500000,
            b_total = 3000000, b_timestamp = ''2025-01-01T00:00:00''\<rparr>
   \<and> backup_totals_ok (snd (backup_add_spy_data FileMissing ''2025-01-01T00:00:00'' ''12345''
         1000000 800000 700000 500000))
   \<and> totals_ok (snd (add_spy_data FileCorrupt 17 ''2025-01-01 00:00:00'' ''12345'' 1 2 3 4))"
proof -
  have b: "backup_totals_ok FileMissing" by (simp add: backup_totals_ok_def)
  have t: "totals_ok FileCorrupt" by (simp add: totals_ok_def)
  show ?thesis
    using b t
      add_spy_data_total_is_sum[of FileMissing "''2025-01-01T00:00:00''" "''12345''"
        1000000 800000 700000 500000 FileCorrupt 17 "''2025-01-01 00:00:00''"]
      add_spy_data_total_is_sum[of FileMissing "''2025-01-01T00:00:00''" "''12345''"
        1 2 3 4 FileCorrupt 17 "''2025-01-01 00:00:00''"]
    by (auto simp: backup_add_spy_data_result)
qed

lemma py_div_truthy_divisor: "truthy b \<Longrightarrow> py_div a b \<noteq> Inl ZeroDivisionError"
  by (cases b; cases a) (auto simp: py_div_def py_truediv_def)

lemma py_div_nonzero_divisor: "\<not> py_eq_zero b \<Longrightarrow> py_div a b \<noteq> Inl ZeroDivisionError"
  by (auto simp: py_div_def py_truediv_def py_eq_zero_def split: option.splits)

lemma get_stat_confidence_no_zero_division:
  "get_stat_confidence now d \<noteq> Inl ZeroDivisionError"
  unfolding get_stat_confidence_def
  by (cases d) (auto simp: ebind_def py_sub_def Let_def split: option.splits sum.splits)

lemma backup_get_recommendation_no_zero_division:
  "backup_get_recommendation my enemy \<noteq> Inl ZeroDivisionError"
  unfolding backup_get_recommendation_def
  by (auto simp: ebind_Inl_iff py_div_truthy_divisor)

lemma get_recommendation_no_zero_division:
  "get_recommendation now ys es \<noteq> Inl ZeroDivisionError"
proof
  assume a: "get_recommendation now ys es = Inl ZeroDivisionError"
  show False
  proof (cases "truthy es")
    case False
    with a show False by (simp add: get_recommendation_def)
  next
    case True
    from a True obtain yt et where nz: "\<not> py_eq_zero et"
      and r: "ebind (py_div yt et) (\<lambda>ratio. ebind (get_stat_confidence now es) (\<lambda>confidence.
                  if ratio > 1.5
                  then Inr (''Highly favorable - You significantly outmatch this opponent'', confidence)
                  else if ratio > 1.1
                  then Inr (''Favorable - You have an advantage'', confidence)
                  else if ratio > 0.9
                  then Inr (''Even match - Battle could go either way'', confidence)
                  else if ratio > 0.7
                  then Inr (''Unfavorable - Opponent has an advantage'', confidence)
                  else Inr (''Highly unfavorable - Opponent significantly outmatches you'',
                            confidence))) = Inl ZeroDivisionError"
      by (cases ys; cases es) (auto simp: get_recommendation_def split: if_splits)
    from r nz show False
      using py_div_nonzero_divisor[of et yt] get_stat_confidence_no_zero_division[of now es]
      by (auto simp: ebind_Inl_iff split: if_splits)
  qed
qed

text \<open>
  C10. Neither \<^verbatim>\<open>get_recommendation\<close> ever raises \<^verbatim>\<open>ZeroDivisionError\<close>. In \<^verbatim>\<open>backup_utils\<close>
  a total that is zero or \<^verbatim>\<open>None\<close> (a false value) gives \<^verbatim>\<open>"unknown"\<close>, and two numbers
  that pass the guard are divided with a divisor that is not zero. In \<^verbatim>\<open>bot_package\<close>
  missing enemy stats give the no-data message, and a \<^verbatim>\<open>total\<close> that is zero or absent
  in either dictionary gives the insufficient-data message with confidence \<^verbatim>\<open>"none"\<close>.
\<close>

theorem get_recommendation_never_divides_by_zero:
  "backup_get_recommendation my enemy \<noteq> Inl ZeroDivisionError
   \<and> (\<not> truthy enemy \<or> \<not> truthy my \<longrightarrow> backup_get_recommendation my enemy = Inr ''unknown'')
   \<and> (truthy enemy \<and> truthy my \<and> num_of my = Some x \<and> num_of enemy = Some y \<longrightarrow>
        y \<noteq> 0 \<and> backup_get_recommendation my enemy =
          Inr (if x / y > 1.5 then ''safe'' else if x / y > 0.8 then ''caution'' else ''avoid''))
   \<and> get_recommendation now ys es \<noteq> Inl ZeroDivisionError
   \<and> (\<not> truthy es \<longrightarrow>
        get_recommendation now ys es = Inr (''No data available to make a recommendation'', ''none''))
   \<and> (ek \<noteq> [] \<and> (py_eq_zero (dict_get yk ''total'' (JInt 0))
                   \<or> py_eq_zero (dict_get ek ''total'' (JInt 0))) \<longrightarrow>
        get_recommendation now (JObj yk) (JObj ek)
          = Inr (''Insufficient data for recommendation'', ''none''))"
proof -
  have "truthy enemy \<and> truthy my \<and> num_of my = Some x \<and> num_of enemy = Some y \<longrightarrow>
        y \<noteq> 0 \<and> backup_get_recommendation my enemy =
          Inr (if x / y > 1.5 then ''safe'' else if x / y > 0.8 then ''caution'' else ''avoid'')"
    by (cases enemy) (auto simp: backup_get_recommendation_def py_div_def py_truediv_def)
  moreover have "ek \<noteq> [] \<and> (py_eq_zero (dict_get yk ''total'' (JInt 0))
                   \<or> py_eq_zero (dict_get ek ''total'' (JInt 0))) \<longrightarrow>
        get_recommendation now (JObj yk) (JObj ek)
          = Inr (''Insufficient data for recommendation'', ''none'')"
    by (auto simp: get_recommendation_def)
  ultimately show ?thesis
    using backup_get_recommendation_no_zero_division[of my enemy]
      get_recommendation_no_zero_division[of now ys es]
    by (auto simp: backup_get_recommendation_def get_recommendation_def)
qed

theorem get_recommendation_never_divides_by_zero_witness:
  "backup_get_recommendation (JInt 3000000) (JInt 0) = Inr ''unknown''
   \<and> backup_get_recommendation JNull (JInt 5) = Inr ''unknown''
   \<and> backup_get_recommendation (JInt 3000000) (JInt 1000000) = Inr ''safe''
   \<and> get_recommendation 0 (JObj [(''total'', JInt 5)]) JNull
       = Inr (''No data available to make a recommendation'', ''none'')
   \<and> get_recommendation 0 (JObj [(''total'', JInt 5)]) (JObj [(''total'', JInt 0)])
       = Inr (''Insufficient data for recommendation'', ''none'')
   \<and> get_recommendation 0 (JObj [(''total'', JInt 5)]) (JObj [(''strength'', JInt 7)])
       = Inr (''Insufficient data for recommendation'', ''none'')"
  using get_recommendation_never_divides_by_zero[of "JInt 3000000" "JInt 0" 0 0 0
          "JObj [(''total'', JInt 5)]" JNull "[(''total'', JInt 0)]" "[(''total'', JInt 5)]"]
    get_recommendation_never_divides_by_zero[of JNull "JInt 5" 0 0 0
          "JObj [(''total'', JInt 5)]" JNull "[(''strength'', JInt 7)]" "[(''total'', JInt 5)]"]
    get_recommendation_never_divides_by_zero[of "JInt 3000000" "JInt 1000000" 3000000 1000000 0
          "JObj [(''total'', JInt 5)]" JNull "[(''strength'', JInt 7)]" "[(''total'', JInt 5)]"]
  by (simp add: dict_get_def py_eq_zero_def)

section \<open>Properties of the normalizer\<close>

lemma spy_record_from_dict: "spy_record_from (JObj f) = Inr (canonical_record f)"
  by (simp add: spy_record_from_def canonical_record_def)

lemma spy_record_from_Inr:
  "spy_record_from src = Inr v \<Longrightarrow> \<exists>f. v = canonical_record f"
  by (cases src) (auto simp: spy_record_from_dict, auto simp: spy_record_from_def)

lemma is_stats_eq:
  "(if map_of kvs ''status'' \<noteq> None
    then ebind (py_getitem (JObj kvs) ''status'') (\<lambda>st.
           if st = JStr ''ok'' then py_in ''stats'' (JObj kvs) else Inr False)
    else Inr False) = Inr (stats_shaped kvs)"
  by (auto simp: stats_shaped_def)

text \<open>The normalizer on a dictionary, branch by branch.\<close>

lemma normalize_dict:
  "normalize_tornstats_data (JObj kvs) =
    (if map_of kvs ''spy'' \<noteq> None then Inr (JObj kvs)
     else if map_of kvs ''user'' \<noteq> None then spy_record_from (the (map_of kvs ''user''))
     else if stats_shaped kvs then spy_record_from (the (map_of kvs ''stats''))
     else if list_all (\<lambda>key. map_of kvs key \<noteq> None) stat_names then Inr (canonical_record kvs)
     else Inr (JObj kvs))"
  unfolding normalize_tornstats_data_def
  by (simp add: is_stats_eq spy_record_from_dict)
     (auto simp: stats_shaped_def spy_record_from_dict)

lemma normalize_scalar:
  "normalize_tornstats_data JNull = Inl TypeError"
  "normalize_tornstats_data (JBool b) = Inl TypeError"
  "normalize_tornstats_data (JInt n) = Inl TypeError"
  "normalize_tornstats_data (JFloat r) = Inl TypeError"
  by (simp_all add: normalize_tornstats_data_def)

lemma normalize_passes_or_canonical:
  "normalize_tornstats_data d = Inr v \<Longrightarrow> v = d \<or> (\<exists>f. v = canonical_record f)"
proof (cases d)
  case (JObj kvs)
  assume "normalize_tornstats_data d = Inr v"
  with JObj show ?thesis
    by (auto simp: normalize_dict split: if_splits dest: spy_record_from_Inr)
qed (auto simp: normalize_tornstats_data_def ebind_Inl_iff split: if_splits)

lemma has_spy_keys_canonical: "has_spy_keys (canonical_record f)"
  by (simp add: has_spy_keys_def canonical_record_def spy_keys_def)

lemma truthy_canonical: "truthy (canonical_record f)"
  by (simp add: canonical_record_def)

lemma normalize_canonical: "normalize_tornstats_data (canonical_record f) = Inr (canonical_record f)"
  by (simp add: canonical_record_def normalize_dict)

lemma normalize_truthy:
  "normalize_tornstats_data d = Inr v \<Longrightarrow> truthy d \<Longrightarrow> truthy v"
  using normalize_passes_or_canonical[of d v] truthy_canonical by auto

text \<open>
  C5, as stated, fails for the \<^verbatim>\<open>'spy'\<close> shape. The fields
  \<^verbatim>\<open>{strength: 1, defense: 2, speed: 3, dexterity: 4}\<close> wrapped as \<^verbatim>\<open>{'spy': fields}\<close> come
  back unchanged, with four keys, while wrapped as \<^verbatim>\<open>{'user': fields}\<close> they come back
  as the canonical record with eight keys, among them \<^verbatim>\<open>source\<close>.
\<close>

theorem normalizer_shape_invariance_counterexample:
  "normalize_tornstats_data (JObj [(''spy'', JObj [(''strength'', JInt 1), (''defense'', JInt 2),
       (''speed'', JInt 3), (''dexterity'', JInt 4)])])
     = Inr (JObj [(''spy'', JObj [(''strength'', JInt 1), (''defense'', JInt 2),
       (''speed'', JInt 3), (''dexterity'', JInt 4)])])
   \<and> normalize_tornstats_data (JObj [(''user'', JObj [(''strength'', JInt 1), (''defense'', JInt 2),
       (''speed'', JInt 3), (''dexterity'', JInt 4)])])
     = Inr (JObj [(''spy'', JObj [(''name'', JStr ''Unknown''), (''level'', JInt 0),
         (''strength'', JInt 1), (''defense'', JInt 2), (''speed'', JInt 3),
         (''dexterity'', JInt 4), (''update_time'', JStr ''Unknown''),
         (''source'', JStr ''TornStats API'')])])
   \<and> normalize_tornstats_data (JObj [(''spy'', JObj [(''strength'', JInt 1), (''defense'', JInt 2),
       (''speed'', JInt 3), (''dexterity'', JInt 4)])])
     \<noteq> normalize_tornstats_data (JObj [(''user'', JObj [(''strength'', JInt 1),
       (''defense'', JInt 2), (''speed'', JInt 3), (''dexterity'', JInt 4)])])"
  by (simp add: normalize_dict spy_record_from_dict canonical_record_def dict_get_def)

text \<open>
  C5, amended. The \<^verbatim>\<open>'user'\<close>-wrapped shape, the \<^verbatim>\<open>{status: 'ok', stats: ...}\<close> shape and
  the bare shape (a dictionary with the four stat names that is of neither other shape)
  carrying the same fields \<open>f\<close> all give the same output, the canonical record of \<open>f\<close>. A
  dictionary with a \<^verbatim>\<open>'spy'\<close> key is passed through unchanged, so it gives that output
  only when it is that canonical record already.
\<close>

theorem normalizer_shape_invariance:
  "(map_of u ''spy'' = None \<and> map_of u ''user'' = Some (JObj f) \<longrightarrow>
      normalize_tornstats_data (JObj u) = Inr (canonical_record f))
   \<and> (map_of s ''spy'' = None \<and> map_of s ''user'' = None
        \<and> map_of s ''status'' = Some (JStr ''ok'') \<and> map_of s ''stats'' = Some (JObj f) \<longrightarrow>
      normalize_tornstats_data (JObj s) = Inr (canonical_record f))
   \<and> (map_of f ''spy'' = None \<and> map_of f ''user'' = None \<and> \<not> stats_shaped f
        \<and> list_all (\<lambda>key. map_of f key \<noteq> None) stat_names \<longrightarrow>
      normalize_tornstats_data (JObj f) = Inr (canonical_record f))
   \<and> normalize_tornstats_data (canonical_record f) = Inr (canonical_record f)"
  by (auto simp: normalize_dict spy_record_from_dict stats_shaped_def normalize_canonical)

theorem normalizer_shape_invariance_witness:
  "normalize_tornstats_data (JObj [(''user'', JObj [(''strength'', JInt 1), (''defense'', JInt 2),
       (''speed'', JInt 3), (''dexterity'', JInt 4)])])
     = Inr (canonical_record [(''strength'', JInt 1), (''defense'', JInt 2),
         (''speed'', JInt 3), (''dexterity'', JInt 4)])
   \<and> normalize_tornstats_data (JObj [(''status'', JStr ''ok''),
        (''stats'', JObj [(''strength'', JInt 1), (''defense'', JInt 2),
          (''speed'', JInt 3), (''dexterity'', JInt 4)])])
     = Inr (canonical_record [(''strength'', JInt 1), (''defense'', JInt 2),
         (''speed'', JInt 3), (''dexterity'', JInt 4)])
   \<and> normalize_tornstats_data (JObj [(''strength'', JInt 1), (''defense'', JInt 2),
       (''speed'', JInt 3), (''dexterity'', JInt 4)])
     = Inr (canonical_record [(''strength'', JInt 1), (''defense'', JInt 2),
         (''speed'', JInt 3), (''dexterity'', JInt 4)])"
  using normalizer_shape_invariance[of
      "[(''user'', JObj [(''strength'', JInt 1), (''defense'', JInt 2),
          (''speed'', JInt 3), (''dexterity'', JInt 4)])]"
      "[(''strength'', JInt 1), (''defense'', JInt 2), (''speed'', JInt 3), (''dexterity'', JInt 4)]"
      "[(''status'', JStr ''ok''),
        (''stats'', JObj [(''strength'', JInt 1), (''defense'', JInt 2),
          (''speed'', JInt 3), (''dexterity'', JInt 4)])]"]
  by (simp add: stats_shaped_def stat_names_def)

text \<open>
  The part of C6 that holds: on a dictionary the normalizer is the identity when the
  dictionary has a \<^verbatim>\<open>'spy'\<close> key, and when it is of none of the recognised shapes.
\<close>

lemma normalize_identity_on_dicts:
  "(map_of kvs ''spy'' \<noteq> None \<longrightarrow> normalize_tornstats_data (JObj kvs) = Inr (JObj kvs))
   \<and> (map_of kvs ''spy'' = None \<and> map_of kvs ''user'' = None \<and> \<not> stats_shaped kvs
        \<and> \<not> list_all (\<lambda>key. map_of kvs key \<noteq> None) stat_names \<longrightarrow>
      normalize_tornstats_data (JObj kvs) = Inr (JObj kvs))"
  by (simp add: normalize_dict)

text \<open>
  C6 on an input that is not a container: the body \<^verbatim>\<open>5\<close> is of no recognised shape, and
  the normalizer does not return it: \<^verbatim>\<open>'spy' in 5\<close> raises \<^verbatim>\<open>TypeError\<close>. The same holds
  of every number, of \<^verbatim>\<open>True\<close> and of \<^verbatim>\<open>None\<close>.
\<close>

theorem normalize_number_raises:
  "normalize_tornstats_data (JInt 5) = Inl TypeError"
  by (simp add: normalize_scalar)

section \<open>Properties of the adapter\<close>


lemma sent_more_simps [simp]:
  "sent_more a [] = a"
  "sent_more (sent_more a rs) rs' = sent_more a (rs @ rs')"
  "sent (sent_more a rs) = sent a @ rs"
  "cache (sent_more a rs) = cache a"
  "api_key (sent_more a rs) = api_key a"
  "session_open (sent_more a rs) = session_open a"
  by (simp_all add: sent_more_def)

lemma session_get_eq: "session_get e a req = (net e (length (sent a)) req, sent_more a [req])"
  by (simp add: session_get_def sent_more_def)

lemma json_attempt_snd: "snd (json_attempt e a req) = sent_more a [req]"
  by (simp add: json_attempt_def session_get_eq)

lemma json_attempt_eq:
  "json_attempt e a req =
     (ebind (net e (length (sent a)) req) (\<lambda>resp.
            if status resp = 200 then
              (case json_body resp of
                 Inl err \<Rightarrow> if err = JSONDecodeError then Inr None else Inl err
               | Inr d \<Rightarrow>
                   if truthy d then ebind (normalize_tornstats_data d) (\<lambda>v. Inr (Some v))
                   else Inr None)
            else Inr None), sent_more a [req])"
  by (simp add: json_attempt_def session_get_eq)

lemma json_attempt_Some:
  assumes "fst (json_attempt e a req) = Inr (Some v)"
  shows "\<exists>resp d. net e (length (sent a)) req = Inr resp \<and> status resp = 200
      \<and> json_body resp = Inr d \<and> truthy d \<and> normalize_tornstats_data d = Inr v"
proof -
  from assms obtain resp where r: "net e (length (sent a)) req = Inr resp"
    by (cases "net e (length (sent a)) req") (simp_all add: json_attempt_eq)
  with assms have s: "status resp = 200"
    by (cases "status resp = 200") (simp_all add: json_attempt_eq)
  from assms r s obtain d where d: "json_body resp = Inr d"
    by (cases "json_body resp") (simp_all add: json_attempt_eq split: if_splits)
  from assms r s d have t: "truthy d"
    by (cases "truthy d") (simp_all add: json_attempt_eq)
  from assms r s d t have "normalize_tornstats_data d = Inr v"
    by (cases "normalize_tornstats_data d") (simp_all add: json_attempt_eq)
  with r s d t show ?thesis by blast
qed

lemma json_loop_Cons:
  "json_loop e a (req # reqs) =
     (case fst (json_attempt e a req) of
        Inr (Some v) \<Rightarrow> (Some v, sent_more a [req])
      | Inr None \<Rightarrow> json_loop e (sent_more a [req]) reqs
      | Inl err \<Rightarrow> json_loop e (sent_more a [req]) reqs)"
proof -
  obtain r a' where att: "json_attempt e a req = (r, a')" by (cases "json_attempt e a req")
  with json_attempt_snd[of e a req] have "a' = sent_more a [req]" by simp
  with att show ?thesis by (simp split: sum.splits option.splits)
qed

lemma json_loop_sent:
  "\<exists>rs. snd (json_loop e a reqs) = sent_more a rs
     \<and> (fst (json_loop e a reqs) \<noteq> None \<longrightarrow> rs \<noteq> [])
     \<and> (fst (json_loop e a reqs) = None \<longrightarrow> rs = reqs)"
proof (induction reqs arbitrary: a)
  case Nil
  show ?case by (rule exI[of _ "[]"]) simp
next
  case (Cons req reqs)
  from Cons.IH[of "sent_more a [req]"] obtain rs where
    rs: "snd (json_loop e (sent_more a [req]) reqs) = sent_more a (req # rs)"
      "fst (json_loop e (sent_more a [req]) reqs) \<noteq> None \<longrightarrow> rs \<noteq> []"
      "fst (json_loop e (sent_more a [req]) reqs) = None \<longrightarrow> rs = reqs" by auto
  show ?case
  proof (cases "\<exists>v. fst (json_attempt e a req) = Inr (Some v)")
    case True
    then obtain v where "fst (json_attempt e a req) = Inr (Some v)" by blast
    then have "json_loop e a (req # reqs) = (Some v, sent_more a [req])"
      by (simp only: json_loop_Cons sum.case option.case)
    then show ?thesis by (intro exI[of _ "[req]"]) simp
  next
    case False
    then have "json_loop e a (req # reqs) = json_loop e (sent_more a [req]) reqs"
      by (simp only: json_loop_Cons split: sum.splits option.splits) simp
    with rs show ?thesis by (intro exI[of _ "req # rs"]) simp
  qed
qed

lemma normalized_good:
  assumes n: "normalize_tornstats_data d = Inr v" and t: "truthy v"
    and src: "(\<exists>n req resp. net e n req = Inr resp \<and> json_body resp = Inr d)
                \<or> (\<exists>s. json_loads e s = Inr d)"
  shows "good_result e v"
proof -
  from normalize_passes_or_canonical[OF n] show ?thesis
  proof
    assume "v = d"
    with n src t show ?thesis by (simp add: good_result_def passed_through_def)
  next
    assume "\<exists>f. v = canonical_record f"
    with t show ?thesis by (auto simp: good_result_def has_spy_keys_canonical)
  qed
qed

lemma json_loop_value:
  "fst (json_loop e a reqs) = Some v \<Longrightarrow> good_result e v"
proof (induction reqs arbitrary: a)
  case Nil
  then show ?case by simp
next
  case (Cons req reqs)
  show ?case
  proof (cases "\<exists>w. fst (json_attempt e a req) = Inr (Some w)")
    case True
    then obtain w where w: "fst (json_attempt e a req) = Inr (Some w)" by blast
    then have "json_loop e a (req # reqs) = (Some w, sent_more a [req])"
      by (simp only: json_loop_Cons sum.case option.case)
    with Cons.prems have "w = v" by simp
    with json_attempt_Some[OF w] obtain resp d where
      "net e (length (sent a)) req = Inr resp" "json_body resp = Inr d" "truthy d"
      "normalize_tornstats_data d = Inr v" by blast
    then show ?thesis
      using normalize_truthy[of d v] normalized_good[of d v e] by blast
  next
    case False
    then have "json_loop e a (req # reqs) = json_loop e (sent_more a [req]) reqs"
      by (simp only: json_loop_Cons split: sum.splits option.splits) simp
    with Cons.prems Cons.IH[of "sent_more a [req]"] show ?thesis by simp
  qed
qed

lemma fetch_json_api_outcome:
  "\<exists>v rs. strategy_outcome e a (fetch_json_api e a pid) v rs \<and> (v \<noteq> JNull \<longrightarrow> rs \<noteq> [])"
proof (cases "api_key a = None \<or> api_key a = Some []")
  case True
  then have "fetch_json_api e a pid = (Inr JNull, a)"
    by (auto simp: fetch_json_api_def)
  then show ?thesis
    by (intro exI[of _ JNull] exI[of _ "[]"]) (simp add: strategy_outcome_def)
next
  case False
  then obtain key where key: "api_key a = Some key" "key \<noteq> []" by (cases "api_key a") auto
  let ?l1 = "json_loop e a (map (bearer_request key) (endpoints pid))"
  from json_loop_sent[of e a "map (bearer_request key) (endpoints pid)"] obtain rs1 where
    rs1: "snd ?l1 = sent_more a rs1" "fst ?l1 \<noteq> None \<longrightarrow> rs1 \<noteq> []" by blast
  show ?thesis
  proof (cases "fst ?l1")
    case (Some v)
    with rs1 have l1: "?l1 = (Some v, sent_more a rs1)" by (simp add: prod_eq_iff)
    then have "fetch_json_api e a pid = (Inr v, sent_more a rs1)"
      using key by (simp add: fetch_json_api_def)
    moreover from json_loop_value[of e a _ v] Some have "good_result e v" by simp
    moreover from rs1 Some have "rs1 \<noteq> []" by simp
    ultimately show ?thesis
      by (intro exI[of _ v] exI[of _ rs1]) (simp add: strategy_outcome_def)
  next
    case None
    with rs1 have l1: "?l1 = (None, sent_more a rs1)" by (simp add: prod_eq_iff)
    let ?l2 = "json_loop e (sent_more a rs1) (map (key_param_request key) (endpoints pid))"
    from json_loop_sent[of e "sent_more a rs1" "map (key_param_request key) (endpoints pid)"]
    obtain rs2 where
      rs2: "snd ?l2 = sent_more a (rs1 @ rs2)" "fst ?l2 \<noteq> None \<longrightarrow> rs2 \<noteq> []" by auto
    show ?thesis
    proof (cases "fst ?l2")
      case N2: None
      with rs2 have "?l2 = (None, sent_more a (rs1 @ rs2))" by (simp add: prod_eq_iff)
      with l1 key have "fetch_json_api e a pid = (Inr JNull, sent_more a (rs1 @ rs2))"
        by (simp add: fetch_json_api_def)
      then show ?thesis
        by (intro exI[of _ JNull] exI[of _ "rs1 @ rs2"]) (simp add: strategy_outcome_def)
    next
      case (Some v)
      with rs2 have "?l2 = (Some v, sent_more a (rs1 @ rs2))" by (simp add: prod_eq_iff)
      with l1 key have "fetch_json_api e a pid = (Inr v, sent_more a (rs1 @ rs2))"
        by (simp add: fetch_json_api_def)
      moreover from json_loop_value[of e "sent_more a rs1" _ v] Some have "good_result e v" by simp
      moreover from rs2 Some have "rs1 @ rs2 \<noteq> []" by simp
      ultimately show ?thesis
        by (intro exI[of _ v] exI[of _ "rs1 @ rs2"]) (simp add: strategy_outcome_def)
    qed
  qed
qed


lemma parse_profile_page_Some:
  "parse_profile_page sp pid = Some v \<Longrightarrow> has_spy_keys v \<and> truthy v"
  unfolding parse_profile_page_def Let_def
  by (auto simp: has_spy_keys_def spy_keys_def split: if_splits)

lemma parse_tornstats_spy_html_cases:
  "parse_tornstats_spy_html sp pid = JNull
   \<or> (has_spy_keys (parse_tornstats_spy_html sp pid) \<and> truthy (parse_tornstats_spy_html sp pid))"
  unfolding parse_tornstats_spy_html_def Let_def
  by (auto simp: has_spy_keys_def spy_keys_def split: option.splits)

lemma html_attempt_eq:
  "html_attempt e a pid u =
     (ebind (net e (length (sent a)) (html_request u)) (\<lambda>resp.
            if status resp \<noteq> 200 then Inr None
            else ebind (text_body resp) (\<lambda>html.
                 ebind (soup_of e html) (\<lambda>sp.
                 Inr (parse_profile_page sp pid)))), sent_more a [html_request u])"
  by (simp add: html_attempt_def session_get_eq)

lemma html_attempt_Some:
  assumes "fst (html_attempt e a pid u) = Inr (Some v)"
  shows "has_spy_keys v \<and> truthy v"
proof -
  from assms obtain sp where "parse_profile_page sp pid = Some v"
    by (auto simp: html_attempt_eq ebind_def split: sum.splits if_splits)
  then show ?thesis by (rule parse_profile_page_Some)
qed

lemma html_loop_Cons:
  "html_loop e a pid (u # us) =
     (case fst (html_attempt e a pid u) of
        Inr (Some v) \<Rightarrow> (Some v, sent_more a [html_request u])
      | Inr None \<Rightarrow> html_loop e (sent_more a [html_request u]) pid us
      | Inl err \<Rightarrow> html_loop e (sent_more a [html_request u]) pid us)"
  by (simp add: html_attempt_eq split: sum.splits option.splits)

lemma html_loop_outcome:
  "\<exists>rs. snd (html_loop e a pid us) = sent_more a rs \<and> (us \<noteq> [] \<longrightarrow> rs \<noteq> [])
     \<and> (\<forall>v. fst (html_loop e a pid us) = Some v \<longrightarrow> has_spy_keys v \<and> truthy v)"
proof (induction us arbitrary: a)
  case Nil
  show ?case by (rule exI[of _ "[]"]) simp
next
  case (Cons u us)
  from Cons.IH[of "sent_more a [html_request u]"] obtain rs where
    rs: "snd (html_loop e (sent_more a [html_request u]) pid us) = sent_more a (html_request u # rs)"
      "\<forall>v. fst (html_loop e (sent_more a [html_request u]) pid us) = Some v
           \<longrightarrow> has_spy_keys v \<and> truthy v" by auto
  show ?case
  proof (cases "\<exists>w. fst (html_attempt e a pid u) = Inr (Some w)")
    case True
    then obtain w where w: "fst (html_attempt e a pid u) = Inr (Some w)" by blast
    then have "html_loop e a pid (u # us) = (Some w, sent_more a [html_request u])"
      by (simp only: html_loop_Cons sum.case option.case)
    with html_attempt_Some[OF w] show ?thesis
      by (intro exI[of _ "[html_request u]"]) simp
  next
    case False
    then have "html_loop e a pid (u # us) = html_loop e (sent_more a [html_request u]) pid us"
      by (simp only: html_loop_Cons split: sum.splits option.splits) simp
    with rs show ?thesis by (intro exI[of _ "html_request u # rs"]) simp
  qed
qed

lemma parse_html_profile_outcome:
  "\<exists>v rs. strategy_outcome e a (parse_html_profile e a pid) v rs \<and> rs \<noteq> []
      \<and> (v = JNull \<or> has_spy_keys v)"
proof -
  let ?l = "html_loop e a pid (profile_urls pid)"
  have ne: "profile_urls pid \<noteq> []" by (simp add: profile_urls_def)
  from html_loop_outcome[of e a pid "profile_urls pid"] ne obtain rs where
    rs: "snd ?l = sent_more a rs" "rs \<noteq> []"
      "\<forall>v. fst ?l = Some v \<longrightarrow> has_spy_keys v \<and> truthy v" by blast
  show ?thesis
  proof (cases "fst ?l")
    case None
    with rs have "?l = (None, sent_more a rs)" by (simp add: prod_eq_iff)
    then have "parse_html_profile e a pid = (Inr JNull, sent_more a rs)"
      by (simp add: parse_html_profile_def)
    with rs show ?thesis
      by (intro exI[of _ JNull] exI[of _ rs]) (simp add: strategy_outcome_def)
  next
    case (Some v)
    with rs have "?l = (Some v, sent_more a rs)" by (simp add: prod_eq_iff)
    then have "parse_html_profile e a pid = (Inr v, sent_more a rs)"
      by (simp add: parse_html_profile_def)
    with rs Some show ?thesis
      by (intro exI[of _ v] exI[of _ rs]) (simp add: strategy_outcome_def good_result_def)
  qed
qed


lemma extract_json_from_html_good:
  assumes t: "truthy (extract_json_from_html e html)"
  shows "good_result e (extract_json_from_html e html)"
proof -
  let ?v = "extract_json_from_html e html"
  from t have "?v \<noteq> JNull" by auto
  then obtain s d where "json_loads e s = Inr d" "normalize_tornstats_data d = Inr ?v"
    unfolding extract_json_from_html_def Let_def
    by (auto simp: ebind_def split: sum.splits if_splits)
  with t show ?thesis using normalized_good[of d ?v e] by blast
qed

lemma authenticated_attempt_outcome:
  "\<exists>rs. snd (authenticated_attempt e a key pid) = sent_more a rs
     \<and> (\<forall>v. fst (authenticated_attempt e a key pid) = Inr (Some v) \<longrightarrow> v = JNull \<or> good_result e v)"
proof (cases "net e (length (sent a)) (login_request key)")
  case (Inl err)
  then have "authenticated_attempt e a key pid = (Inl err, sent_more a [login_request key])"
    by (simp add: authenticated_attempt_def session_get_eq)
  then show ?thesis by (intro exI[of _ "[login_request key]"]) simp
next
  case (Inr login_response)
  let ?req = "spy_request pid (resp_cookies login_response)"
  let ?a1 = "sent_more a [login_request key]"
  let ?body = "\<lambda>spy_response.
                   if status spy_response = 200 then
                     ebind (text_body spy_response) (\<lambda>html.
                       let json_data = extract_json_from_html e html
                       in if truthy json_data then Inr (Some json_data)
                          else ebind (soup_of e html) (\<lambda>sp.
                               Inr (Some (parse_tornstats_spy_html sp pid))))
                   else Inr None"
  from Inr have eq: "authenticated_attempt e a key pid =
      (ebind (net e (length (sent ?a1)) ?req) ?body, sent_more a [login_request key, ?req])"
    by (simp add: authenticated_attempt_def session_get_eq)
  have "v = JNull \<or> good_result e v" if "ebind (net e (length (sent ?a1)) ?req) ?body = Inr (Some v)" for v
  proof -
    from that obtain html where
      h: "(let json_data = extract_json_from_html e html
           in if truthy json_data then Inr (Some json_data)
              else ebind (soup_of e html) (\<lambda>sp. Inr (Some (parse_tornstats_spy_html sp pid))))
          = Inr (Some v)"
      by (auto simp: ebind_def split: sum.splits if_splits)
    show ?thesis
    proof (cases "truthy (extract_json_from_html e html)")
      case True
      with h have "v = extract_json_from_html e html" by simp
      with True extract_json_from_html_good show ?thesis by simp
    next
      case False
      with h obtain sp where "v = parse_tornstats_spy_html sp pid"
        by (auto simp: ebind_def split: sum.splits)
      with parse_tornstats_spy_html_cases[of sp pid] show ?thesis
        by (auto simp: good_result_def)
    qed
  qed
  with eq show ?thesis
    by (intro exI[of _ "[login_request key, ?req]"]) simp
qed

lemma try_authenticated_access_outcome:
  "\<exists>v rs. strategy_outcome e a (try_authenticated_access e a pid) v rs"
proof (cases "api_key a = None \<or> api_key a = Some []")
  case True
  then have "try_authenticated_access e a pid = (Inr JNull, a)"
    by (auto simp: try_authenticated_access_def)
  then show ?thesis
    by (intro exI[of _ JNull] exI[of _ "[]"]) (simp add: strategy_outcome_def)
next
  case False
  then obtain key where key: "api_key a = Some key" "key \<noteq> []" by (cases "api_key a") auto
  let ?r = "authenticated_attempt e a key pid"
  from authenticated_attempt_outcome[of e a key pid] obtain rs where
    rs: "snd ?r = sent_more a rs"
      "\<forall>v. fst ?r = Inr (Some v) \<longrightarrow> v = JNull \<or> good_result e v" by blast
  show ?thesis
  proof (cases "\<exists>v. fst ?r = Inr (Some v)")
    case True
    then obtain v where v: "fst ?r = Inr (Some v)" by blast
    with rs have "?r = (Inr (Some v), sent_more a rs)" by (simp add: prod_eq_iff)
    with key have "try_authenticated_access e a pid = (Inr v, sent_more a rs)"
      by (simp add: try_authenticated_access_def)
    with rs v show ?thesis
      by (intro exI[of _ v] exI[of _ rs]) (simp add: strategy_outcome_def)
  next
    case False
    obtain x a' where x: "?r = (x, a')" by (cases ?r)
    with rs have a': "a' = sent_more a rs" by simp
    from False x have "try_authenticated_access e a pid = (Inr JNull, a')"
      using key by (cases x) (auto simp: try_authenticated_access_def split: option.splits)
    with a' show ?thesis
      by (intro exI[of _ JNull] exI[of _ rs]) (simp add: strategy_outcome_def)
  qed
qed


lemma good_result_not_null: "good_result e v \<Longrightarrow> v \<noteq> JNull \<and> truthy v"
  by (auto simp: good_result_def)

lemma fetch_fresh_outcome:
  "\<exists>v rs. rs \<noteq> [] \<and> (v = JNull \<or> good_result e v)
     \<and> fetch_fresh e a key pid later =
         (Inr v, if v = JNull then sent_more (ensure_session a) rs
                 else store (sent_more (ensure_session a) rs) key v later)"
proof -
  let ?a0 = "ensure_session a"
  from fetch_json_api_outcome[of e ?a0 pid] obtain v1 rs1 where
    j: "fetch_json_api e ?a0 pid = (Inr v1, sent_more ?a0 rs1)"
      "v1 = JNull \<or> good_result e v1" "v1 \<noteq> JNull \<longrightarrow> rs1 \<noteq> []"
    by (auto simp: strategy_outcome_def)
  show ?thesis
  proof (cases "v1 = JNull")
    case False
    with j have "truthy v1" "rs1 \<noteq> []" by (auto dest: good_result_not_null)
    with j False show ?thesis
      by (intro exI[of _ v1] exI[of _ rs1]) (simp add: fetch_fresh_def Let_def)
  next
    case True
    let ?a1 = "sent_more ?a0 rs1"
    from parse_html_profile_outcome[of e ?a1 pid] obtain v2 rs2 where
      h: "parse_html_profile e ?a1 pid = (Inr v2, sent_more ?a0 (rs1 @ rs2))"
        "v2 = JNull \<or> good_result e v2" "rs2 \<noteq> []"
      by (auto simp: strategy_outcome_def)
    show ?thesis
    proof (cases "v2 = JNull")
      case False
      with h have "truthy v2" by (auto dest: good_result_not_null)
      with j h True False show ?thesis
        by (intro exI[of _ v2] exI[of _ "rs1 @ rs2"]) (simp add: fetch_fresh_def Let_def)
    next
      case T2: True
      let ?a2 = "sent_more ?a0 (rs1 @ rs2)"
      from try_authenticated_access_outcome[of e ?a2 pid] obtain v3 rs3 where
        t: "try_authenticated_access e ?a2 pid = (Inr v3, sent_more ?a0 (rs1 @ rs2 @ rs3))"
          "v3 = JNull \<or> good_result e v3"
        by (auto simp: strategy_outcome_def)
      show ?thesis
      proof (cases "v3 = JNull")
        case False
        with t have "truthy v3" by (auto dest: good_result_not_null)
        with j h t True T2 False show ?thesis
          by (intro exI[of _ v3] exI[of _ "rs1 @ rs2 @ rs3"]) (simp add: fetch_fresh_def Let_def)
      next
        case T3: True
        with j h t True T2 show ?thesis
          by (intro exI[of _ JNull] exI[of _ "rs1 @ rs2 @ rs3"]) (simp add: fetch_fresh_def Let_def)
      qed
    qed
  qed
qed

lemma get_from_cache_eq:
  "get_from_cache a key now =
     (case cache a key of
        Some entry \<Rightarrow>
          if now - timestamp entry < 3600 then (data entry, a)
          else (JNull, a\<lparr>cache := (cache a)(key := None)\<rparr>)
      | None \<Rightarrow> (JNull, a))"
  unfolding get_from_cache_def cache_expiry_def by (rule refl)

lemma get_player_data_hit:
  assumes "cache a (''player_'' @ pid) = Some entry" "now - timestamp entry < 3600"
    "truthy (data entry)"
  shows "get_player_data e a pid now later = (Inr (data entry), a)"
  using assms by (simp add: get_player_data_def get_from_cache_eq)

lemma get_player_data_miss:
  assumes "\<not> truthy (fst (get_from_cache a (''player_'' @ pid) now))"
  shows "\<exists>v rs. rs \<noteq> [] \<and> (v = JNull \<or> good_result e v)
     \<and> get_player_data e a pid now later =
         (Inr v,
          if v = JNull
          then sent_more (ensure_session (snd (get_from_cache a (''player_'' @ pid) now))) rs
          else store (sent_more (ensure_session (snd (get_from_cache a (''player_'' @ pid) now))) rs)
                 (''player_'' @ pid) v later)"
proof -
  let ?key = "''player_'' @ pid"
  let ?a0 = "snd (get_from_cache a ?key now)"
  from fetch_fresh_outcome[of e ?a0 ?key pid later] obtain v rs where
    f: "rs \<noteq> []" "v = JNull \<or> good_result e v"
      "fetch_fresh e ?a0 ?key pid later =
         (Inr v, if v = JNull then sent_more (ensure_session ?a0) rs
                 else store (sent_more (ensure_session ?a0) rs) ?key v later)" by blast
  from assms f(3) have "get_player_data e a pid now later =
         (Inr v, if v = JNull then sent_more (ensure_session ?a0) rs
                 else store (sent_more (ensure_session ?a0) rs) ?key v later)"
    by (simp add: get_player_data_def split_beta Let_def)
  with f(1,2) show ?thesis by blast
qed


lemma store_simps [simp]:
  "sent (store a k v t) = sent a"
  "api_key (store a k v t) = api_key a"
  "cache (store a k v t) = (cache a)(k \<mapsto> \<lparr>data = v, timestamp = t\<rparr>)"
  by (simp_all add: store_def)

lemma ensure_session_simps [simp]:
  "sent (ensure_session a) = sent a"
  "api_key (ensure_session a) = api_key a"
  "cache (ensure_session a) = cache a"
  by (simp_all add: ensure_session_def)

lemma get_from_cache_snd [simp]:
  "sent (snd (get_from_cache a key now)) = sent a"
  "api_key (snd (get_from_cache a key now)) = api_key a"
  by (simp_all add: get_from_cache_eq split: option.splits)


lemma get_player_data_expired_sends:
  assumes "cache a (''player_'' @ pid) = None
           \<or> (\<exists>entry. cache a (''player_'' @ pid) = Some entry \<and> 3600 \<le> now - timestamp entry)"
  shows "length (sent a) < length (sent (snd (get_player_data e a pid now later)))"
proof -
  from assms have "fst (get_from_cache a (''player_'' @ pid) now) = JNull"
    by (auto simp: get_from_cache_eq)
  then have "\<not> truthy (fst (get_from_cache a (''player_'' @ pid) now))" by simp
  from get_player_data_miss[OF this, of e later] obtain v rs where
    "rs \<noteq> []"
    "get_player_data e a pid now later =
         (Inr v,
          if v = JNull
          then sent_more (ensure_session (snd (get_from_cache a (''player_'' @ pid) now))) rs
          else store (sent_more (ensure_session (snd (get_from_cache a (''player_'' @ pid) now))) rs)
                 (''player_'' @ pid) v later)" by blast
  then show ?thesis by (cases "v = JNull") simp_all
qed



lemma json_attempt_unreachable:
  "unreachable e \<Longrightarrow> \<exists>err. fst (json_attempt e a req) = Inl err"
proof -
  assume "unreachable e"
  then obtain err where "net e (length (sent a)) req = Inl err" by (auto simp: unreachable_def)
  then show ?thesis by (simp add: json_attempt_eq)
qed

lemma json_loop_unreachable:
  "unreachable e \<Longrightarrow> fst (json_loop e a reqs) = None"
proof (induction reqs arbitrary: a)
  case Nil
  show ?case by simp
next
  case (Cons req reqs)
  from json_attempt_unreachable[OF Cons.prems, of a req] obtain err where
    "fst (json_attempt e a req) = Inl err" by blast
  then have "json_loop e a (req # reqs) = json_loop e (sent_more a [req]) reqs"
    by (simp only: json_loop_Cons sum.case)
  with Cons.IH[OF Cons.prems] show ?case by simp
qed

lemma html_loop_unreachable:
  "unreachable e \<Longrightarrow> fst (html_loop e a pid us) = None"
proof (induction us arbitrary: a)
  case Nil
  show ?case by simp
next
  case (Cons u us)
  from Cons.prems obtain err where "net e (length (sent a)) (html_request u) = Inl err"
    by (auto simp: unreachable_def)
  then have "fst (html_attempt e a pid u) = Inl err" by (simp add: html_attempt_eq)
  then have "html_loop e a pid (u # us) = html_loop e (sent_more a [html_request u]) pid us"
    by (simp only: html_loop_Cons sum.case)
  with Cons.IH[OF Cons.prems] show ?case by simp
qed

lemma fetch_json_api_unreachable:
  assumes "unreachable e"
  shows "fst (fetch_json_api e a pid) = Inr JNull"
proof (cases "api_key a = None \<or> api_key a = Some []")
  case True
  then show ?thesis by (auto simp: fetch_json_api_def)
next
  case False
  then obtain key where key: "api_key a = Some key" "key \<noteq> []" by (cases "api_key a") auto
  obtain a1 where l1: "json_loop e a (map (bearer_request key) (endpoints pid)) = (None, a1)"
    using json_loop_unreachable[OF assms, of a "map (bearer_request key) (endpoints pid)"]
    by (cases "json_loop e a (map (bearer_request key) (endpoints pid))") simp
  obtain a2 where l2: "json_loop e a1 (map (key_param_request key) (endpoints pid)) = (None, a2)"
    using json_loop_unreachable[OF assms, of a1 "map (key_param_request key) (endpoints pid)"]
    by (cases "json_loop e a1 (map (key_param_request key) (endpoints pid))") simp
  from key l1 l2 show ?thesis by (simp add: fetch_json_api_def)
qed

lemma parse_html_profile_unreachable:
  assumes "unreachable e"
  shows "fst (parse_html_profile e a pid) = Inr JNull"
proof -
  obtain a1 where "html_loop e a pid (profile_urls pid) = (None, a1)"
    using html_loop_unreachable[OF assms, of a pid "profile_urls pid"]
    by (cases "html_loop e a pid (profile_urls pid)") simp
  then show ?thesis by (simp add: parse_html_profile_def)
qed

lemma try_authenticated_access_unreachable:
  assumes "unreachable e"
  shows "fst (try_authenticated_access e a pid) = Inr JNull"
proof (cases "api_key a = None \<or> api_key a = Some []")
  case True
  then show ?thesis by (auto simp: try_authenticated_access_def)
next
  case False
  then obtain key where key: "api_key a = Some key" "key \<noteq> []" by (cases "api_key a") auto
  from assms obtain err where "net e (length (sent a)) (login_request key) = Inl err"
    by (auto simp: unreachable_def)
  then have "authenticated_attempt e a key pid = (Inl err, sent_more a [login_request key])"
    by (simp add: authenticated_attempt_def session_get_eq)
  with key show ?thesis by (simp add: try_authenticated_access_def)
qed

lemma fetch_fresh_unreachable:
  assumes "unreachable e"
  shows "fst (fetch_fresh e a key pid later) = Inr JNull"
proof -
  obtain a1 where j: "fetch_json_api e (ensure_session a) pid = (Inr JNull, a1)"
    using fetch_json_api_unreachable[OF assms, of "ensure_session a" pid]
    by (cases "fetch_json_api e (ensure_session a) pid") simp
  obtain a2 where h: "parse_html_profile e a1 pid = (Inr JNull, a2)"
    using parse_html_profile_unreachable[OF assms, of a1 pid]
    by (cases "parse_html_profile e a1 pid") simp
  obtain a3 where t: "try_authenticated_access e a2 pid = (Inr JNull, a3)"
    using try_authenticated_access_unreachable[OF assms, of a2 pid]
    by (cases "try_authenticated_access e a2 pid") simp
  from j h t show ?thesis by (simp add: fetch_fresh_def Let_def)
qed

lemma get_player_data_unreachable:
  assumes "unreachable e" "\<not> truthy (fst (get_from_cache a (''player_'' @ pid) now))"
  shows "fst (get_player_data e a pid now later) = Inr JNull"
proof -
  let ?a0 = "snd (get_from_cache a (''player_'' @ pid) now)"
  obtain a' where "fetch_fresh e ?a0 (''player_'' @ pid) pid later = (Inr JNull, a')"
    using fetch_fresh_unreachable[OF assms(1), of ?a0 "''player_'' @ pid" pid later]
    by (cases "fetch_fresh e ?a0 (''player_'' @ pid) pid later") simp
  with assms(2) show ?thesis by (simp add: get_player_data_def split_beta Let_def)
qed

lemma get_player_data_returns:
  "\<exists>v a'. get_player_data e a pid now later = (Inr v, a') \<and> (v = JNull \<or> truthy v)"
proof (cases "truthy (fst (get_from_cache a (''player_'' @ pid) now))")
  case True
  then show ?thesis by (simp add: get_player_data_def split_beta Let_def)
next
  case False
  from get_player_data_miss[OF False, of e later] show ?thesis
    by (auto dest: good_result_not_null)
qed

lemma scripted_nil_unreachable: "unreachable (scripted [])"
  by (simp add: unreachable_def scripted_def)

text \<open>
  C8. \<^verbatim>\<open>get_from_cache\<close> returns the stored data exactly when the key has an entry whose
  age \<open>now - timestamp\<close> is less than 3600 seconds; once the age has reached 3600 the read
  deletes the entry and returns \<^verbatim>\<open>None\<close>, and a key without entry gives \<^verbatim>\<open>None\<close>. A
  \<^verbatim>\<open>get_player_data\<close> call that finds its entry expired issues at least one request.
\<close>

theorem cache_expiry_lazy_strict:
  "(cache a key = Some entry \<and> now - timestamp entry < 3600 \<longrightarrow>
      get_from_cache a key now = (data entry, a))
   \<and> (cache a key = Some entry \<and> 3600 \<le> now - timestamp entry \<longrightarrow>
      get_from_cache a key now = (JNull, a\<lparr>cache := (cache a)(key := None)\<rparr>))
   \<and> (cache a key = None \<longrightarrow> get_from_cache a key now = (JNull, a))
   \<and> (cache a (''player_'' @ pid) = Some entry \<and> 3600 \<le> now - timestamp entry \<longrightarrow>
      length (sent a) < length (sent (snd (get_player_data e a pid now later))))"
  using get_player_data_expired_sends[of a pid now e later]
  by (auto simp: get_from_cache_eq)


theorem cache_expiry_lazy_strict_witness:
  "get_from_cache (cached_adapter (canonical_record []) 0) ''player_1'' 3599
     = (canonical_record [], cached_adapter (canonical_record []) 0)
   \<and> get_from_cache (cached_adapter (canonical_record []) 0) ''player_1'' 3600
     = (JNull, (cached_adapter (canonical_record []) 0)\<lparr>cache := Map.empty\<rparr>)
   \<and> get_from_cache (init_adapter None) ''player_1'' 0 = (JNull, init_adapter None)
   \<and> length (sent (cached_adapter (canonical_record []) 0))
       < length (sent (snd (get_player_data (scripted []) (cached_adapter (canonical_record []) 0)
                              ''1'' 3600 3600)))"
  using cache_expiry_lazy_strict[of "cached_adapter (canonical_record []) 0" "''player_1''"
      "\<lparr>data = canonical_record [], timestamp = 0\<rparr>" 3599 "''1''" "scripted []" 3599]
    cache_expiry_lazy_strict[of "cached_adapter (canonical_record []) 0" "''player_1''"
      "\<lparr>data = canonical_record [], timestamp = 0\<rparr>" 3600 "''1''" "scripted []" 3600]
    cache_expiry_lazy_strict[of "init_adapter None" "''player_1''"
      "\<lparr>data = canonical_record [], timestamp = 0\<rparr>" 0 "''1''" "scripted []" 0]
  by (simp add: cached_adapter_def init_adapter_def)

text \<open>
  C1. In every world (whatever the network, the JSON decoder and the HTML parser return
  or raise) \<^verbatim>\<open>get_player_data\<close> returns, and returns \<^verbatim>\<open>None\<close> or a value that counts as
  data; no strategy raises either. When the host answers no request and the cache has no
  live entry for the player, the result is \<^verbatim>\<open>None\<close>, with or without a credential.
\<close>

theorem get_player_data_never_raises:
  "(\<exists>v a'. get_player_data e a pid now later = (Inr v, a') \<and> (v = JNull \<or> truthy v))
   \<and> (\<exists>v a'. fetch_json_api e a pid = (Inr v, a'))
   \<and> (\<exists>v a'. parse_html_profile e a pid = (Inr v, a'))
   \<and> (\<exists>v a'. try_authenticated_access e a pid = (Inr v, a'))
   \<and> (unreachable e \<and> (cache a (''player_'' @ pid) = None
         \<or> (\<exists>entry. cache a (''player_'' @ pid) = Some entry \<and> 3600 \<le> now - timestamp entry)) \<longrightarrow>
       fst (get_player_data e a pid now later) = Inr JNull)"
proof -
  have "fst (get_player_data e a pid now later) = Inr JNull"
    if "unreachable e" and c: "cache a (''player_'' @ pid) = None
         \<or> (\<exists>entry. cache a (''player_'' @ pid) = Some entry \<and> 3600 \<le> now - timestamp entry)"
  proof -
    from c have "fst (get_from_cache a (''player_'' @ pid) now) = JNull"
      by (auto simp: get_from_cache_eq)
    then have "\<not> truthy (fst (get_from_cache a (''player_'' @ pid) now))" by simp
    with that(1) show ?thesis by (rule get_player_data_unreachable)
  qed
  moreover from fetch_json_api_outcome[of e a pid]
  have "\<exists>v a'. fetch_json_api e a pid = (Inr v, a')" by (auto simp: strategy_outcome_def)
  moreover from parse_html_profile_outcome[of e a pid]
  have "\<exists>v a'. parse_html_profile e a pid = (Inr v, a')" by (auto simp: strategy_outcome_def)
  moreover from try_authenticated_access_outcome[of e a pid]
  have "\<exists>v a'. try_authenticated_access e a pid = (Inr v, a')" by (auto simp: strategy_outcome_def)
  ultimately show ?thesis using get_player_data_returns[of e a pid now later] by blast
qed

theorem get_player_data_never_raises_witness:
  "fst (get_player_data (scripted []) (init_adapter None) ''1'' 0 0) = Inr JNull"
  using get_player_data_never_raises[of "scripted []" "init_adapter None" "''1''" 0 0]
    scripted_nil_unreachable
  by (simp add: init_adapter_def)


lemma get_player_data_caches:
  assumes "get_player_data e a pid now later = (Inr r, a')" "r \<noteq> JNull"
  shows "\<exists>entry. cache a' (''player_'' @ pid) = Some entry \<and> data entry = r \<and> truthy r
           \<and> ((cache a (''player_'' @ pid) = Some entry \<and> a' = a
                 \<and> now - timestamp entry < 3600)
                \<or> timestamp entry = later)"
proof (cases "truthy (fst (get_from_cache a (''player_'' @ pid) now))")
  case True
  then obtain entry where en: "cache a (''player_'' @ pid) = Some entry"
      "now - timestamp entry < 3600" "truthy (data entry)"
    by (auto simp: get_from_cache_eq split: option.splits if_splits)
  from get_player_data_hit[OF en, of e later] assms have "r = data entry" "a' = a" by simp_all
  with en show ?thesis by simp
next
  case False
  from get_player_data_miss[OF False, of e later] obtain v rs where
    m: "v = JNull \<or> good_result e v"
      "get_player_data e a pid now later =
         (Inr v,
          if v = JNull
          then sent_more (ensure_session (snd (get_from_cache a (''player_'' @ pid) now))) rs
          else store (sent_more (ensure_session (snd (get_from_cache a (''player_'' @ pid) now))) rs)
                 (''player_'' @ pid) v later)" by blast
  with assms have "v = r" "good_result e r"
    "a' = store (sent_more (ensure_session (snd (get_from_cache a (''player_'' @ pid) now))) rs)
                 (''player_'' @ pid) r later" by auto
  then show ?thesis
    by (intro exI[of _ "\<lparr>data = r, timestamp = later\<rparr>"]) (auto dest: good_result_not_null)
qed

text \<open>
  C3, amended. If \<^verbatim>\<open>get_player_data(p)\<close> returns a record \<open>r\<close> that is not \<^verbatim>\<open>None\<close>, the
  cache then holds \<open>r\<close> under \<^verbatim>\<open>'player_' + p\<close>, stamped with the time it was stored (the
  time of this call's fetch, or of the earlier fetch when this call was itself answered
  from the cache). Any later call made less than 3600 seconds after that stamp returns
  \<open>r\<close> and leaves the adapter as it is: no request, whatever the network would answer.
\<close>

theorem cached_result_reused_within_ttl:
  "get_player_data e a pid now later = (Inr r, a') \<and> r \<noteq> JNull \<longrightarrow>
     (\<exists>entry. cache a' (''player_'' @ pid) = Some entry \<and> data entry = r
        \<and> ((cache a (''player_'' @ pid) = Some entry \<and> a' = a) \<or> timestamp entry = later)
        \<and> (\<forall>e2 now2 later2. now2 - timestamp entry < 3600 \<longrightarrow>
              get_player_data e2 a' pid now2 later2 = (Inr r, a')))"
proof
  assume h: "get_player_data e a pid now later = (Inr r, a') \<and> r \<noteq> JNull"
  from get_player_data_caches[of e a pid now later r a'] h obtain entry where
    en: "cache a' (''player_'' @ pid) = Some entry" "data entry = r" "truthy r"
      "(cache a (''player_'' @ pid) = Some entry \<and> a' = a) \<or> timestamp entry = later" by blast
  have "\<forall>e2 now2 later2. now2 - timestamp entry < 3600 \<longrightarrow>
              get_player_data e2 a' pid now2 later2 = (Inr r, a')"
    using get_player_data_hit[of a' pid entry] en by auto
  with en show "\<exists>entry. cache a' (''player_'' @ pid) = Some entry \<and> data entry = r
        \<and> ((cache a (''player_'' @ pid) = Some entry \<and> a' = a) \<or> timestamp entry = later)
        \<and> (\<forall>e2 now2 later2. now2 - timestamp entry < 3600 \<longrightarrow>
              get_player_data e2 a' pid now2 later2 = (Inr r, a'))" by blast
qed

lemma cached_adapter_hit:
  "truthy v \<Longrightarrow> now - t < 3600 \<Longrightarrow>
   get_player_data e (cached_adapter v t) ''1'' now later = (Inr v, cached_adapter v t)"
  using get_player_data_hit[of "cached_adapter v t" "''1''" "\<lparr>data = v, timestamp = t\<rparr>" now e later]
  by (simp add: cached_adapter_def)

text \<open>
  C3, as stated, counts the 3600 seconds from the first call. An entry stored at time 0
  answers a call at time 3000 from the cache; a second call at time 4000, only 1000
  seconds later, finds the entry expired, goes to the network and here returns \<^verbatim>\<open>None\<close>.
\<close>

theorem idempotence_within_ttl_counterexample:
  "get_player_data (scripted []) (cached_adapter (canonical_record []) 0) ''1'' 3000 3000
     = (Inr (canonical_record []), cached_adapter (canonical_record []) 0)
   \<and> canonical_record [] \<noteq> JNull
   \<and> (4000 :: real) - 3000 < 3600
   \<and> fst (get_player_data (scripted []) (cached_adapter (canonical_record []) 0) ''1'' 4000 4000)
       = Inr JNull
   \<and> sent (snd (get_player_data (scripted []) (cached_adapter (canonical_record []) 0)
                  ''1'' 4000 4000)) \<noteq> []"
proof -
  let ?a = "cached_adapter (canonical_record []) 0"
  have c: "cache ?a (''player_'' @ ''1'') = Some \<lparr>data = canonical_record [], timestamp = 0\<rparr>"
    by (simp add: cached_adapter_def)
  have "get_player_data (scripted []) ?a ''1'' 3000 3000 = (Inr (canonical_record []), ?a)"
    by (rule cached_adapter_hit) (simp_all add: truthy_canonical)
  moreover have "canonical_record [] \<noteq> JNull" by (simp add: canonical_record_def)
  moreover have "\<not> truthy (fst (get_from_cache ?a (''player_'' @ ''1'') 4000))"
    using c by (simp add: get_from_cache_eq)
  then have "fst (get_player_data (scripted []) ?a ''1'' 4000 4000) = Inr JNull"
    using scripted_nil_unreachable by (intro get_player_data_unreachable)
  moreover have "length (sent ?a) < length (sent (snd (get_player_data (scripted []) ?a ''1'' 4000 4000)))"
    using c by (intro get_player_data_expired_sends) simp
  then have "sent (snd (get_player_data (scripted []) ?a ''1'' 4000 4000)) \<noteq> []" by auto
  ultimately show ?thesis by simp
qed


lemma json_loop_first_success:
  assumes "net e (length (sent a)) req = Inr resp" "status resp = 200"
    "json_body resp = Inr d" "truthy d" "normalize_tornstats_data d = Inr v"
  shows "json_loop e a (req # reqs) = (Some v, sent_more a [req])"
proof -
  from assms have "fst (json_attempt e a req) = Inr (Some v)" by (simp add: json_attempt_eq)
  then show ?thesis by (simp only: json_loop_Cons sum.case option.case)
qed

lemma json_loop_miss:
  assumes "(\<exists>err. net e (length (sent a)) req = Inl err)
     \<or> (\<exists>resp. net e (length (sent a)) req = Inr resp
           \<and> (status resp \<noteq> 200 \<or> (\<exists>err. json_body resp = Inl err)
               \<or> (\<exists>d. json_body resp = Inr d \<and> \<not> truthy d)))"
  shows "json_loop e a (req # reqs) = json_loop e (sent_more a [req]) reqs"
proof -
  from assms have "\<not> (\<exists>v. fst (json_attempt e a req) = Inr (Some v))"
    by (auto simp: json_attempt_eq split: if_splits)
  then show ?thesis
    by (simp only: json_loop_Cons split: sum.splits option.splits) simp
qed

lemma fetch_json_api_first_answer:
  assumes "truthy b" "normalize_tornstats_data b = Inr v" "key \<noteq> []"
  shows "fetch_json_api (scripted [Inr (json_response b)]) (init_adapter (Some key)) pid
     = (Inr v, sent_more (init_adapter (Some key))
                 [bearer_request key (''https://www.tornstats.com/api/v1/player/'' @ pid)])"
proof -
  let ?e = "scripted [Inr (json_response b)]"
  let ?a = "init_adapter (Some key)"
  have "json_loop ?e ?a (map (bearer_request key) (endpoints pid))
        = (Some v, sent_more ?a [bearer_request key (''https://www.tornstats.com/api/v1/player/'' @ pid)])"
    unfolding endpoints_def list.map
    by (rule json_loop_first_success[where resp = "json_response b" and d = b])
       (use assms in \<open>simp_all add: scripted_def init_adapter_def json_response_def\<close>)
  with assms(3) show ?thesis by (simp add: fetch_json_api_def init_adapter_def)
qed

lemma get_player_data_first_answer:
  assumes "truthy b" "normalize_tornstats_data b = Inr v" "key \<noteq> []"
  shows "get_player_data (scripted [Inr (json_response b)]) (init_adapter (Some key)) pid now later
     = (Inr v, store (sent_more (ensure_session (init_adapter (Some key)))
                 [bearer_request key (''https://www.tornstats.com/api/v1/player/'' @ pid)])
               (''player_'' @ pid) v later)"
proof -
  let ?e = "scripted [Inr (json_response b)]"
  let ?a = "init_adapter (Some key)"
  have g: "get_from_cache ?a (''player_'' @ pid) now = (JNull, ?a)"
    by (simp add: get_from_cache_eq init_adapter_def)
  have es: "ensure_session ?a = init_adapter (Some key)\<lparr>session_open := True\<rparr>"
    by (simp add: ensure_session_def init_adapter_def)
  have "fetch_json_api ?e (ensure_session ?a) pid
     = (Inr v, sent_more (ensure_session ?a)
                 [bearer_request key (''https://www.tornstats.com/api/v1/player/'' @ pid)])"
  proof -
    have "json_loop ?e (ensure_session ?a) (map (bearer_request key) (endpoints pid))
        = (Some v, sent_more (ensure_session ?a)
             [bearer_request key (''https://www.tornstats.com/api/v1/player/'' @ pid)])"
      unfolding endpoints_def list.map
      by (rule json_loop_first_success[where resp = "json_response b" and d = b])
         (use assms in \<open>simp_all add: scripted_def init_adapter_def json_response_def\<close>)
    with assms(3) show ?thesis by (simp add: fetch_json_api_def init_adapter_def)
  qed
  moreover from assms have "truthy v" by (auto dest: normalize_truthy)
  ultimately show ?thesis using g
    by (simp add: get_player_data_def fetch_fresh_def Let_def)
qed

theorem cached_result_reused_within_ttl_witness:
  "\<exists>a'. get_player_data (scripted [Inr (json_response (canonical_record []))])
           (init_adapter (Some ''k'')) ''1'' 0 1 = (Inr (canonical_record []), a')
      \<and> length (sent a') = 1
      \<and> get_player_data (scripted []) a' ''1'' 3600 3600 = (Inr (canonical_record []), a')"
proof -
  let ?e = "scripted [Inr (json_response (canonical_record []))]"
  let ?a = "init_adapter (Some ''k'')"
  let ?a' = "store (sent_more (ensure_session ?a)
                 [bearer_request ''k'' (''https://www.tornstats.com/api/v1/player/'' @ ''1'')])
               (''player_'' @ ''1'') (canonical_record []) 1"
  have first: "get_player_data ?e ?a ''1'' 0 1 = (Inr (canonical_record []), ?a')"
    by (rule get_player_data_first_answer) (simp_all add: truthy_canonical normalize_canonical)
  have nn: "canonical_record [] \<noteq> JNull" by (simp add: canonical_record_def)
  from cached_result_reused_within_ttl[of ?e ?a "''1''" 0 1 "canonical_record []" ?a'] first nn
  obtain entry where en: "cache ?a' (''player_'' @ ''1'') = Some entry"
    "\<forall>e2 now2 later2. now2 - timestamp entry < 3600 \<longrightarrow>
        get_player_data e2 ?a' ''1'' now2 later2 = (Inr (canonical_record []), ?a')" by blast
  from en(1) have "timestamp entry = 1" by auto
  with en(2) have "get_player_data (scripted []) ?a' ''1'' 3600 3600 = (Inr (canonical_record []), ?a')"
    by simp
  with first show ?thesis by (intro exI[of _ ?a']) (simp add: init_adapter_def)
qed


lemma json_loop_None_sent:
  "json_loop e a reqs = (None, a1) \<Longrightarrow> a1 = sent_more a reqs"
  using json_loop_sent[of e a reqs] by auto

text \<open>
  C4, amended. In either loop of the JSON-API strategy, an attempt whose status is 200 and
  whose body parses to a JSON value that is true in Python (not \<^verbatim>\<open>{}\<close>, \<^verbatim>\<open>[]\<close>, \<^verbatim>\<open>0\<close>,
  \<^verbatim>\<open>null\<close>, \<^verbatim>\<open>false\<close> or \<^verbatim>\<open>""\<close>) and on which the normalizer returns, ends the strategy
  with the normalizer's output and no further request, all-zero stats included. An
  attempt that raises, has another status, has a body that does not parse, or parses to a
  value that is false in Python, only moves the loop to the next endpoint. When the three
  header-based attempts all miss, the same three endpoints are tried with \<^verbatim>\<open>?key=\<close>
  appended, and without a credential the strategy returns \<^verbatim>\<open>None\<close> at once.
\<close>

theorem json_api_strategy_steps:
  "(net e (length (sent a)) req = Inr resp \<and> status resp = 200 \<and> json_body resp = Inr d
      \<and> truthy d \<and> normalize_tornstats_data d = Inr v \<longrightarrow>
      json_loop e a (req # reqs) = (Some v, sent_more a [req]))
   \<and> ((\<exists>err. net e (length (sent a)) req = Inl err)
        \<or> (\<exists>resp. net e (length (sent a)) req = Inr resp
              \<and> (status resp \<noteq> 200 \<or> (\<exists>err. json_body resp = Inl err)
                  \<or> (\<exists>d. json_body resp = Inr d \<and> \<not> truthy d))) \<longrightarrow>
      json_loop e a (req # reqs) = json_loop e (sent_more a [req]) reqs)
   \<and> (api_key a = Some key \<and> key \<noteq> []
        \<and> json_loop e a (map (bearer_request key) (endpoints pid)) = (Some v, a1) \<longrightarrow>
      fetch_json_api e a pid = (Inr v, a1))
   \<and> (api_key a = Some key \<and> key \<noteq> []
        \<and> json_loop e a (map (bearer_request key) (endpoints pid)) = (None, a1) \<longrightarrow>
      a1 = sent_more a (map (bearer_request key) (endpoints pid))
      \<and> fetch_json_api e a pid =
          (case json_loop e a1 (map (key_param_request key) (endpoints pid)) of
             (Some w, a2) \<Rightarrow> (Inr w, a2)
           | (None, a2) \<Rightarrow> (Inr JNull, a2)))
   \<and> map url (map (key_param_request key) (endpoints pid))
       = map (\<lambda>u. u @ ''?key='' @ key) (map url (map (bearer_request key) (endpoints pid)))
   \<and> (api_key a = None \<or> api_key a = Some [] \<longrightarrow> fetch_json_api e a pid = (Inr JNull, a))"
proof -
  have 1: "net e (length (sent a)) req = Inr resp \<and> status resp = 200 \<and> json_body resp = Inr d
      \<and> truthy d \<and> normalize_tornstats_data d = Inr v \<longrightarrow>
      json_loop e a (req # reqs) = (Some v, sent_more a [req])"
    using json_loop_first_success[of e a req resp d v reqs] by blast
  have 2: "(\<exists>err. net e (length (sent a)) req = Inl err)
        \<or> (\<exists>resp. net e (length (sent a)) req = Inr resp
              \<and> (status resp \<noteq> 200 \<or> (\<exists>err. json_body resp = Inl err)
                  \<or> (\<exists>d. json_body resp = Inr d \<and> \<not> truthy d))) \<longrightarrow>
      json_loop e a (req # reqs) = json_loop e (sent_more a [req]) reqs"
    using json_loop_miss[of e a req reqs] by blast
  have 3: "api_key a = Some key \<and> key \<noteq> []
        \<and> json_loop e a (map (bearer_request key) (endpoints pid)) = (Some v, a1) \<longrightarrow>
      fetch_json_api e a pid = (Inr v, a1)"
    by (simp add: fetch_json_api_def)
  have 4: "api_key a = Some key \<and> key \<noteq> []
        \<and> json_loop e a (map (bearer_request key) (endpoints pid)) = (None, a1) \<longrightarrow>
      a1 = sent_more a (map (bearer_request key) (endpoints pid))
      \<and> fetch_json_api e a pid =
          (case json_loop e a1 (map (key_param_request key) (endpoints pid)) of
             (Some w, a2) \<Rightarrow> (Inr w, a2)
           | (None, a2) \<Rightarrow> (Inr JNull, a2))"
    using json_loop_None_sent[of e a "map (bearer_request key) (endpoints pid)" a1]
    by (auto simp: fetch_json_api_def split: prod.splits option.splits)
  have 5: "map url (map (key_param_request key) (endpoints pid))
       = map (\<lambda>u. u @ ''?key='' @ key) (map url (map (bearer_request key) (endpoints pid)))"
    by (simp add: key_param_request_def bearer_request_def)
  have 6: "api_key a = None \<or> api_key a = Some [] \<longrightarrow> fetch_json_api e a pid = (Inr JNull, a)"
    by (auto simp: fetch_json_api_def)
  from 1 2 3 4 5 6 show ?thesis by (intro conjI)
qed


lemma fetch_json_api_header_success:
  "api_key a = Some key \<Longrightarrow> key \<noteq> [] \<Longrightarrow>
   json_loop e a (map (bearer_request key) (endpoints pid)) = (Some v, a1) \<Longrightarrow>
   fetch_json_api e a pid = (Inr v, a1)"
  by (simp add: fetch_json_api_def)

theorem json_api_strategy_steps_witness:
  "json_loop (scripted [Inr (json_response (JObj [(''user'', JObj [])]))]) (init_adapter (Some ''k''))
      (bearer_request ''k'' ''https://www.tornstats.com/api/v1/player/1''
        # [bearer_request ''k'' ''https://www.tornstats.com/api/v1/player/1/full''])
     = (Some (canonical_record []),
        sent_more (init_adapter (Some ''k''))
          [bearer_request ''k'' ''https://www.tornstats.com/api/v1/player/1''])
   \<and> json_loop (scripted []) (init_adapter (Some ''k''))
        (bearer_request ''k'' ''https://www.tornstats.com/api/v1/player/1'' # [])
     = json_loop (scripted [])
         (sent_more (init_adapter (Some ''k''))
            [bearer_request ''k'' ''https://www.tornstats.com/api/v1/player/1'']) []
   \<and> fetch_json_api (scripted []) (init_adapter None) ''1'' = (Inr JNull, init_adapter None)"
proof -
  let ?req = "bearer_request ''k'' ''https://www.tornstats.com/api/v1/player/1''"
  let ?d = "JObj [(''user'', JObj [])]"
  have n: "normalize_tornstats_data ?d = Inr (canonical_record [])"
    by (simp add: normalize_dict spy_record_from_dict)
  have net1: "net (scripted [Inr (json_response ?d)]) (length (sent (init_adapter (Some ''k'')))) ?req
      = Inr (json_response ?d)"
    by (simp add: scripted_def init_adapter_def)
  have net2: "net (scripted []) (length (sent (init_adapter (Some ''k'')))) ?req = Inl ClientError"
    by (simp add: scripted_def)
  have r: "status (json_response ?d) = 200" "json_body (json_response ?d) = Inr ?d" "truthy ?d"
    by (simp_all add: json_response_def)
  have k: "api_key (init_adapter None) = None" by (simp add: init_adapter_def)
  from json_api_strategy_steps[of "scripted [Inr (json_response ?d)]" "init_adapter (Some ''k'')"
      ?req "json_response ?d" ?d "canonical_record []"
      "[bearer_request ''k'' ''https://www.tornstats.com/api/v1/player/1/full'']"] net1 r n
  have a: "json_loop (scripted [Inr (json_response ?d)]) (init_adapter (Some ''k''))
      (?req # [bearer_request ''k'' ''https://www.tornstats.com/api/v1/player/1/full''])
     = (Some (canonical_record []), sent_more (init_adapter (Some ''k'')) [?req])"
    by blast
  from json_api_strategy_steps[of "scripted []" "init_adapter (Some ''k'')" ?req _ _ _ "[]"] net2
  have b: "json_loop (scripted []) (init_adapter (Some ''k'')) (?req # [])
     = json_loop (scripted []) (sent_more (init_adapter (Some ''k'')) [?req]) []"
    by blast
  from json_api_strategy_steps[of "scripted []" "init_adapter None"] k
  have c: "fetch_json_api (scripted []) (init_adapter None) ''1'' = (Inr JNull, init_adapter None)"
    by blast
  from a b c show ?thesis by (intro conjI)
qed

text \<open>
  C4, as stated, fails on a body that parses but is empty: the first endpoint answers 200
  with \<^verbatim>\<open>{}\<close>, which the normalizer would return unchanged, yet \<^verbatim>\<open>if data:\<close> skips it and
  the strategy goes on to the second endpoint and returns what that one sends.
\<close>

theorem json_api_empty_body_counterexample:
  "net (scripted [Inr (json_response (JObj [])), Inr (json_response (canonical_record []))]) 0
      (bearer_request ''k'' ''https://www.tornstats.com/api/v1/player/1'')
     = Inr (json_response (JObj []))
   \<and> status (json_response (JObj [])) = 200
   \<and> json_body (json_response (JObj [])) = Inr (JObj [])
   \<and> normalize_tornstats_data (JObj []) = Inr (JObj [])
   \<and> fetch_json_api (scripted [Inr (json_response (JObj [])), Inr (json_response (canonical_record []))])
        (init_adapter (Some ''k'')) ''1''
     = (Inr (canonical_record []),
        sent_more (init_adapter (Some ''k''))
          [bearer_request ''k'' ''https://www.tornstats.com/api/v1/player/1'',
           bearer_request ''k'' ''https://www.tornstats.com/api/v1/player/1/full''])"
proof -
  let ?e = "scripted [Inr (json_response (JObj [])), Inr (json_response (canonical_record []))]"
  let ?a = "init_adapter (Some ''k'')"
  let ?r1 = "bearer_request ''k'' ''https://www.tornstats.com/api/v1/player/1''"
  let ?r2 = "bearer_request ''k'' ''https://www.tornstats.com/api/v1/player/1/full''"
  let ?r3 = "bearer_request ''k'' ''https://www.tornstats.com/api/v1/battles/1''"
  have s1: "json_loop ?e ?a [?r1, ?r2, ?r3] = json_loop ?e (sent_more ?a [?r1]) [?r2, ?r3]"
    by (rule json_loop_miss)
       (simp add: scripted_def init_adapter_def json_response_def)
  have s2: "json_loop ?e (sent_more ?a [?r1]) [?r2, ?r3]
      = (Some (canonical_record []), sent_more (sent_more ?a [?r1]) [?r2])"
    by (rule json_loop_first_success[where resp = "json_response (canonical_record [])"
          and d = "canonical_record []"])
       (simp_all add: scripted_def init_adapter_def json_response_def truthy_canonical
          normalize_canonical)
  have eps: "map (bearer_request ''k'') (endpoints ''1'') = [?r1, ?r2, ?r3]"
    by (simp add: endpoints_def)
  have sm: "sent_more (sent_more ?a [?r1]) [?r2] = sent_more ?a [?r1, ?r2]" by simp
  have l: "json_loop ?e ?a (map (bearer_request ''k'') (endpoints ''1''))
      = (Some (canonical_record []), sent_more ?a [?r1, ?r2])"
    by (simp only: eps s1 s2 sm)
  have "fetch_json_api ?e ?a ''1'' = (Inr (canonical_record []), sent_more ?a [?r1, ?r2])"
    by (rule fetch_json_api_header_success[OF _ _ l]) (simp_all add: init_adapter_def)
  moreover have "normalize_tornstats_data (JObj []) = Inr (JObj [])"
    by (simp add: normalize_dict stats_shaped_def stat_names_def)
  moreover have "net ?e 0 ?r1 = Inr (json_response (JObj []))" by (simp add: scripted_def)
  ultimately show ?thesis by (simp add: json_response_def)
qed







text \<open>
  The other part of C6 that holds: a body with a \<^verbatim>\<open>'spy'\<close> key, received with status 200
  on the first attempt by an adapter that has a credential and an empty cache, is what
  \<^verbatim>\<open>get_player_data\<close> returns.
\<close>

lemma get_player_data_spy_body_unchanged:
  assumes "map_of kvs ''spy'' \<noteq> None" "key \<noteq> []"
  shows "fst (get_player_data (scripted [Inr (json_response (JObj kvs))]) (init_adapter (Some key))
                pid now later) = Inr (JObj kvs)"
proof -
  from assms(1) have n: "normalize_tornstats_data (JObj kvs) = Inr (JObj kvs)"
    by (simp add: normalize_dict)
  from assms(1) have t: "truthy (JObj kvs)" by auto
  show ?thesis by (subst get_player_data_first_answer[OF t n assms(2)]) simp
qed

section \<open>Properties of the HTML extraction\<close>

text \<open>
  The handlers \<^verbatim>\<open>except ValueError\<close> and \<^verbatim>\<open>except (IndexError, ValueError)\<close> catch
  everything their bodies can raise, and the table scan reads \<^verbatim>\<open>Strength | 1,234,567\<close>
  as \<open>1234567\<close>.
\<close>


lemma py_int_raises_ValueError: "py_int s = Inl err \<Longrightarrow> err = ValueError"
  by (auto simp: py_int_def split: list.splits if_splits option.splits)

lemma py_nth_raises_IndexError: "py_nth xs i = Inl err \<Longrightarrow> err = IndexError"
  by (auto simp: py_nth_def split: if_splits)

lemma value_after_raises:
  "value_after pattern element = Inl err \<Longrightarrow> err = IndexError \<or> err = ValueError"
  unfolding value_after_def Let_def
  by (auto simp: ebind_Inl_iff dest: py_int_raises_ValueError py_nth_raises_IndexError)


lemma set_from_text_thousands:
  "set_from_text ''strength'' ''1,234,567'' [] = [(''strength'', 1234567)]"
  by (simp add: set_from_text_def py_int_def remove_commas_def py_strip_def is_space_def
        is_digit_def digit_val_def)

lemma scan_cells_thousands:
  "scan_cells [''Strength'', ''1,234,567''] [] = [(''strength'', 1234567)]"
  by (simp add: set_from_text_thousands py_lower_def py_strip_def is_space_def lower_char_def)

end
